theory Spec2Isabelle
  imports Main "HOL-Library.Word"
begin

unbundle bit_operations_syntax

section \<open>Error codes\<close>

text \<open>
  The services return a negative errno on failure. The model returns \<open>Inl e\<close> for
  \<open>-e\<close> and \<open>Inr v\<close> for a non-negative return value \<open>v\<close>. \<open>Dangling\<close> is not an
  errno: it marks the paths on which the C code dereferences a message pointer that is
  not a live buffer of the pool (undefined behaviour in C), so that no theorem can say
  anything about them by accident. \<open>Negative v\<close> is a negative return value \<open>v\<close>
  that is not an errno the service has set: a size that has been cast to \<open>ssize_t\<close>.
\<close>

datatype error =
  EPERM | EINVAL | ENOMEM | EEXIST | EWOULDBLOCK | ETIMEDOUT | EINTR | EIDRM | ESRCH | EBUSY
  | Dangling | Negative int

section \<open>Message queues (lib/alchemy/queue.c)\<close>

subsection \<open>Data\<close>

type_synonym byte = "8 word"

text \<open>
  \<open>struct alchemy_queue_msg\<close>: the header that precedes every payload in the pool.
  The field \<open>size\<close> is called \<open>msg_size\<close> here. The counters are natural numbers:
  every decrement in the source is guarded by a test for zero, and the increments are
  bounded by the number of blocked threads.
\<close>

record alchemy_queue_msg =
  msg_size :: nat
  refcount :: nat
  payload :: "byte list"

text \<open>
  \<open>struct alchemy_queue_wait\<close>: the wait area of a blocked receiver. \<open>userbuf\<close> is the
  contents of the destination area a reader supplied, \<open>usersz\<close> its capacity (zero for
  \<open>rt_queue_receive\<close>), \<open>msg\<close> the message pointer a sender attaches (\<open>None\<close> is NULL).
\<close>

record alchemy_queue_wait =
  userbuf :: "byte list"
  usersz :: nat
  msg :: "nat option"

text \<open>
  A thread as the queue sees it: its identity, its priority, whether it belongs to the
  calling process (\<open>threadobj_local_p\<close>), and its wait area (\<open>threadobj_get_wait\<close>).
\<close>

record threadobj =
  tid :: nat
  t_prio :: int
  is_local :: bool
  wait :: alchemy_queue_wait

text \<open>
  \<open>struct alchemy_queue\<close>. \<open>magic\<close> is true while \<open>qcb->magic == queue_magic\<close>.
  \<open>mq\<close> lists the addresses of the pending messages, head first. \<open>hobj\<close> is the
  buffer pool, \<open>sobj\<close> the threads blocked on the grant queue, next to be granted
  first. \<open>woken\<close> collects the threads a grant has made runnable, each with its wait
  area as the granter left it.
\<close>

record alchemy_queue =
  magic :: bool
  mode :: "32 word"
  limit :: nat
  mq :: "nat list"
  mcount :: nat
  hobj :: "alchemy_queue_msg option list"
  sobj :: "threadobj list"
  woken :: "threadobj list"

text \<open>Flag values of the header \<open>queue.h\<close>.\<close>

definition Q_NORMAL :: "32 word" where "Q_NORMAL = 0"
definition Q_URGENT :: "32 word" where "Q_URGENT = 1"
definition Q_BROADCAST :: "32 word" where "Q_BROADCAST = 2"
definition Q_FIFO :: "32 word" where "Q_FIFO = 0"
definition Q_PRIO :: "32 word" where "Q_PRIO = 1"
definition Q_UNLIMITED :: nat where "Q_UNLIMITED = 0"

subsection \<open>The buffer pool\<close>

text \<open>
  Modelled from the spec: the pool (\<open>heapobj_alloc\<close>, \<open>heapobj_free\<close>,
  \<open>heapobj_validate\<close> of copperplate are not part of the sources at hand). The pool is
  an array of slots; the address of a buffer is the index of its slot.
  \<open>alloc(size) -> buffer | NoMemory\<close> takes the first free slot and fails when there is
  none; the model bounds the number of buffers, not their bytes.
\<close>

fun heapobj_alloc :: "alchemy_queue_msg option list \<Rightarrow> nat option" where
  "heapobj_alloc [] = None"
| "heapobj_alloc (None # h) = Some 0"
| "heapobj_alloc (Some m # h) = map_option Suc (heapobj_alloc h)"

definition heapobj_free :: "alchemy_queue_msg option list \<Rightarrow> nat \<Rightarrow> alchemy_queue_msg option list" where
  "heapobj_free h a = h[a := None]"

definition msg_at :: "alchemy_queue_msg option list \<Rightarrow> nat \<Rightarrow> alchemy_queue_msg option" where
  "msg_at h a = (if a < length h then h ! a else None)"

definition heapobj_validate :: "alchemy_queue_msg option list \<Rightarrow> nat \<Rightarrow> bool" where
  "heapobj_validate h a = (msg_at h a \<noteq> None)"

subsection \<open>The grant queue\<close>

text \<open>
  Modelled from the spec: the wait queue (\<open>syncobj_*\<close> of copperplate are not part of
  the sources at hand). \<open>grant_one\<close> removes and returns the highest-ordered waiter,
  none if empty; \<open>peek\<close> and \<open>count\<close> do not mutate; \<open>grant_to\<close> removes the given
  waiter; \<open>wait\<close> appends the caller on a FIFO queue and inserts it by descending
  priority, behind its equals, on a priority queue.
\<close>

definition syncobj_grant_one :: "threadobj list \<Rightarrow> (threadobj \<times> threadobj list) option" where
  "syncobj_grant_one ws = (case ws of [] \<Rightarrow> None | w # r \<Rightarrow> Some (w, r))"

definition syncobj_peek_grant :: "threadobj list \<Rightarrow> threadobj option" where
  "syncobj_peek_grant ws = (case ws of [] \<Rightarrow> None | w # r \<Rightarrow> Some w)"

definition syncobj_count_grant :: "threadobj list \<Rightarrow> nat" where
  "syncobj_count_grant ws = length ws"

definition syncobj_grant_to :: "threadobj list \<Rightarrow> threadobj \<Rightarrow> threadobj list" where
  "syncobj_grant_to ws w = remove1 w ws"

fun insert_prio :: "threadobj \<Rightarrow> threadobj list \<Rightarrow> threadobj list" where
  "insert_prio t [] = [t]"
| "insert_prio t (w # ws) =
     (if t_prio w < t_prio t then t # w # ws else w # insert_prio t ws)"

definition syncobj_wait_grant :: "32 word \<Rightarrow> threadobj \<Rightarrow> threadobj list \<Rightarrow> threadobj list" where
  "syncobj_wait_grant md t ws = (if md AND Q_PRIO \<noteq> 0 then insert_prio t ws else ws @ [t])"

text \<open>A waiter that times out or is unblocked leaves the grant queue.\<close>

definition syncobj_drop :: "nat \<Rightarrow> threadobj list \<Rightarrow> threadobj list" where
  "syncobj_drop t ws = filter (\<lambda>w. tid w \<noteq> t) ws"

subsection \<open>Creation\<close>

text \<open>
  \<open>rt_queue_create\<close>. \<open>irq\<close> is \<open>threadobj_irq_p()\<close>; \<open>qcb_ok\<close> says whether
  \<open>xnmalloc\<close> returned a control block; \<open>pool\<close> is what \<open>heapobj_init\<close> or
  \<open>heapobj_init_array\<close> built (or its error); \<open>name_clash\<close> is the result of
  \<open>syncluster_addobj\<close>.
\<close>

definition rt_queue_create ::
  "bool \<Rightarrow> nat \<Rightarrow> nat \<Rightarrow> 32 word \<Rightarrow> bool \<Rightarrow> error + alchemy_queue_msg option list \<Rightarrow> bool
     \<Rightarrow> error + alchemy_queue" where
  "rt_queue_create irq poolsize qlimit md qcb_ok pool name_clash =
     (if irq then Inl EPERM
      else if poolsize = 0 \<or> md AND NOT Q_PRIO \<noteq> 0 then Inl EINVAL
      else if \<not> qcb_ok then Inl ENOMEM
      else (case pool of
        Inl e \<Rightarrow> Inl e
      | Inr h \<Rightarrow>
          if name_clash then Inl EEXIST
          else Inr \<lparr>magic = True, mode = md, limit = qlimit, mq = [], mcount = 0,
                    hobj = h, sobj = [], woken = []\<rparr>))"

subsection \<open>Allocation and release\<close>

text \<open>
  \<open>rt_queue_alloc\<close> returns the buffer address or NULL. The payload of a fresh buffer
  is whatever the pool holds there; the model gives it \<open>size\<close> zero bytes.
\<close>

definition rt_queue_alloc :: "alchemy_queue \<Rightarrow> nat \<Rightarrow> nat option \<times> alchemy_queue" where
  "rt_queue_alloc q sz =
     (if \<not> magic q then (None, q)
      else (case heapobj_alloc (hobj q) of
        None \<Rightarrow> (None, q)
      | Some a \<Rightarrow>
          (Some a, q\<lparr>hobj := (hobj q)[a := Some \<lparr>msg_size = sz, refcount = 1,
                                                   payload = replicate sz 0\<rparr>]\<rparr>)))"

text \<open>\<open>rt_queue_free\<close>; \<open>buf = None\<close> is the NULL pointer.\<close>

definition rt_queue_free :: "alchemy_queue \<Rightarrow> nat option \<Rightarrow> (error + nat) \<times> alchemy_queue" where
  "rt_queue_free q buf =
     (case buf of
        None \<Rightarrow> (Inl EINVAL, q)
      | Some a \<Rightarrow>
          if \<not> magic q then (Inl EINVAL, q)
          else if \<not> heapobj_validate (hobj q) a then (Inl EINVAL, q)
          else (case msg_at (hobj q) a of
            None \<Rightarrow> (Inl Dangling, q)
          | Some m \<Rightarrow>
              if refcount m = 0 then (Inl EINVAL, q)
              else if refcount m - 1 = 0
                then (Inr 0, q\<lparr>hobj := heapobj_free (hobj q) a\<rparr>)
                else (Inr 0, q\<lparr>hobj := (hobj q)[a := Some (m\<lparr>refcount := refcount m - 1\<rparr>)]\<rparr>)))"

subsection \<open>Sending\<close>

text \<open>
  The grant loop shared by \<open>rt_queue_send\<close> and \<open>rt_queue_write\<close>:
  \<^verbatim>\<open>do { waiter = syncobj_grant_one(); if (waiter == NULL) break;
       wait->msg = msg; msg->refcount++; ret++; } while (mode & Q_BROADCAST);\<close>
\<close>

definition incr_refcount :: "alchemy_queue_msg option list \<Rightarrow> nat \<Rightarrow> alchemy_queue_msg option list" where
  "incr_refcount h a = h[a := map_option (\<lambda>m. m\<lparr>refcount := refcount m + 1\<rparr>) (msg_at h a)]"

function grant_loop :: "32 word \<Rightarrow> nat \<Rightarrow> alchemy_queue \<Rightarrow> nat \<Rightarrow> nat \<times> alchemy_queue" where
  "grant_loop md a q ret =
     (case syncobj_grant_one (sobj q) of
        None \<Rightarrow> (ret, q)
      | Some (waiter, rest) \<Rightarrow>
          (let q' = q\<lparr>sobj := rest,
                      woken := woken q @ [waiter\<lparr>wait := (wait waiter)\<lparr>msg := Some a\<rparr>\<rparr>],
                      hobj := incr_refcount (hobj q) a\<rparr>
           in if md AND Q_BROADCAST \<noteq> 0 then grant_loop md a q' (ret + 1)
              else (ret + 1, q')))"
  by pat_completeness auto
termination
  by (relation "measure (\<lambda>(md, a, q, ret). length (sobj q))")
     (auto simp: syncobj_grant_one_def split: list.splits)

declare grant_loop.simps [simp del]

definition list_prepend :: "nat \<Rightarrow> nat list \<Rightarrow> nat list" where
  "list_prepend a l = a # l"

definition list_append :: "nat \<Rightarrow> nat list \<Rightarrow> nat list" where
  "list_append a l = l @ [a]"

text \<open>
  \<open>rt_queue_send\<close>. The limit is tested first, before the message header is read
  and before the grant queue is looked at.
\<close>

definition rt_queue_send ::
  "alchemy_queue \<Rightarrow> nat option \<Rightarrow> nat \<Rightarrow> 32 word \<Rightarrow> (error + nat) \<times> alchemy_queue" where
  "rt_queue_send q buf sz md =
     (case buf of
        None \<Rightarrow> (Inl EINVAL, q)
      | Some a \<Rightarrow>
          if \<not> magic q then (Inl EINVAL, q)
          else if limit q \<noteq> 0 \<and> mcount q \<ge> limit q then (Inl ENOMEM, q)
          else (case msg_at (hobj q) a of
            None \<Rightarrow> (Inl Dangling, q)
          | Some m \<Rightarrow>
              if refcount m = 0 then (Inl EINVAL, q)
              else
                let q1 = q\<lparr>hobj := (hobj q)[a := Some (m\<lparr>refcount := refcount m - 1,
                                                           msg_size := sz\<rparr>)]\<rparr>;
                    (ret, q2) = grant_loop md a q1 0
                in if ret \<noteq> 0 then (Inr ret, q2)
                   else if md AND Q_BROADCAST \<noteq> 0
                     then (Inr ret, q2\<lparr>hobj := incr_refcount (hobj q2) a\<rparr>)
                     else (Inr ret, q2\<lparr>mcount := mcount q2 + 1,
                                        mq := (if md AND Q_URGENT \<noteq> 0
                                               then list_prepend a (mq q2)
                                               else list_append a (mq q2))\<rparr>)))"

subsection \<open>Writing\<close>

text \<open>
  \<open>memcpy(dst, src, n)\<close> on the contents of the two areas: the first \<open>n\<close> bytes of
  \<open>dst\<close> are replaced by those of \<open>src\<close> (the caller owes \<open>n\<close> readable bytes).
\<close>

definition memcpy :: "byte list \<Rightarrow> byte list \<Rightarrow> nat \<Rightarrow> byte list" where
  "memcpy dst src n = take n src @ drop n dst"

text \<open>
  The part of \<open>rt_queue_write\<close> from the label \<open>enqueue\<close> on. \<open>sz\<close> is the size
  the caller passed: the fast path truncates only after it has found a destination.
\<close>

definition write_enqueue ::
  "alchemy_queue \<Rightarrow> byte list \<Rightarrow> nat \<Rightarrow> 32 word \<Rightarrow> (error + nat) \<times> alchemy_queue" where
  "write_enqueue q buf sz md =
     (let nwaiters = syncobj_count_grant (sobj q)
      in if nwaiters = 0 \<and> md AND Q_BROADCAST \<noteq> 0 then (Inr 0, q)
         else if limit q \<noteq> 0 \<and> mcount q \<ge> limit q then (Inl ENOMEM, q)
         else (case heapobj_alloc (hobj q) of
           None \<Rightarrow> (Inl ENOMEM, q)
         | Some a \<Rightarrow>
             (let q1 = q\<lparr>hobj := (hobj q)[a := Some \<lparr>msg_size = sz, refcount = 0,
                                                       payload = memcpy (replicate sz 0) buf sz\<rparr>]\<rparr>
              in if nwaiters = 0
                 then (Inr 0, q1\<lparr>mcount := mcount q1 + 1,
                                  mq := (if md AND Q_URGENT \<noteq> 0
                                         then list_prepend a (mq q1)
                                         else list_append a (mq q1))\<rparr>)
                 else (let (ret, q2) = grant_loop md a q1 0 in (Inr ret, q2)))))"

text \<open>\<open>rt_queue_write\<close>: \<open>buf\<close> is the contents of the caller's data area.\<close>

definition rt_queue_write ::
  "alchemy_queue \<Rightarrow> byte list \<Rightarrow> nat \<Rightarrow> 32 word \<Rightarrow> (error + nat) \<times> alchemy_queue" where
  "rt_queue_write q buf sz md =
     (if sz = 0 then (Inr 0, q)
      else if \<not> magic q then (Inl EINVAL, q)
      else (case syncobj_peek_grant (sobj q) of
        None \<Rightarrow> write_enqueue q buf sz md
      | Some waiter \<Rightarrow>
          if is_local waiter then
            (let uz = usersz (wait waiter)
             in if uz = 0 then write_enqueue q buf sz md
                else (let sz' = (if sz > uz then uz else sz);
                          w' = (if sz' > 0
                                then (wait waiter)\<lparr>userbuf := memcpy (userbuf (wait waiter)) buf sz'\<rparr>
                                else wait waiter);
                          w'' = w'\<lparr>usersz := sz'\<rparr>
                      in (Inr 1, q\<lparr>sobj := syncobj_grant_to (sobj q) waiter,
                                    woken := woken q @ [waiter\<lparr>wait := w''\<rparr>]\<rparr>)))
          else write_enqueue q buf sz md))"

subsection \<open>Receiving\<close>

text \<open>
  \<open>rt_queue_receive_timed\<close> and \<open>rt_queue_read_timed\<close> return a \<open>ssize_t\<close>. The sizes
  they return are \<open>size_t\<close> values that they cast: on 64 bits, a size of \<open>2^63\<close> or
  more comes out negative, and the caller reads it as an error.
\<close>

definition ssize_t_of :: "nat \<Rightarrow> int" where
  "ssize_t_of n = (let r = int n mod 2 ^ 64 in if r < 2 ^ 63 then r else r - 2 ^ 64)"

definition ssize_ret :: "nat \<Rightarrow> 'a \<Rightarrow> error + nat \<times> 'a" where
  "ssize_ret n x =
     (if ssize_t_of n < 0 then Inl (Negative (ssize_t_of n)) else Inr (nat (ssize_t_of n), x))"

text \<open>
  A call that blocks is split at the suspension: the first half runs up to
  \<open>syncobj_wait_grant\<close> and leaves the caller on the grant queue (\<open>Suspended\<close>); the
  second half runs when the thread is resumed, with the status the wait returned.
  \<open>cur\<close> is \<open>threadobj_current()\<close>, \<open>None\<close> when the caller is not a Xenomai thread.
\<close>

datatype timeout = TM_NONBLOCK | TM_INFINITE | TM_UNTIL nat

definition alchemy_poll_mode :: "timeout \<Rightarrow> bool" where
  "alchemy_poll_mode t = (t = TM_NONBLOCK)"

definition threadobj_current_p :: "threadobj option \<Rightarrow> bool" where
  "threadobj_current_p cur = (cur \<noteq> None)"

datatype 'a outcome = Return 'a | Suspended

text \<open>\<open>rt_queue_receive_timed\<close>; a success returns the size and the buffer address.\<close>

definition rt_queue_receive_timed ::
  "alchemy_queue \<Rightarrow> threadobj option \<Rightarrow> timeout \<Rightarrow> (error + nat \<times> nat) outcome \<times> alchemy_queue" where
  "rt_queue_receive_timed q cur abs_timeout =
     (if \<not> threadobj_current_p cur \<and> \<not> alchemy_poll_mode abs_timeout then (Return (Inl EPERM), q)
      else if \<not> magic q then (Return (Inl EINVAL), q)
      else (case mq q of
        a # rest \<Rightarrow>
          (case msg_at (hobj q) a of
             None \<Rightarrow> (Return (Inl Dangling), q)
           | Some m \<Rightarrow>
               (Return (ssize_ret (msg_size m) a),
                q\<lparr>mq := rest, hobj := incr_refcount (hobj q) a, mcount := mcount q - 1\<rparr>))
      | [] \<Rightarrow>
          if alchemy_poll_mode abs_timeout then (Return (Inl EWOULDBLOCK), q)
          else (case cur of
            None \<Rightarrow> (Return (Inl EPERM), q)
          | Some t \<Rightarrow>
              (Suspended,
               q\<lparr>sobj := syncobj_wait_grant (mode q) (t\<lparr>wait := (wait t)\<lparr>usersz := 0\<rparr>\<rparr>) (sobj q)\<rparr>))))"

text \<open>
  The resumption of \<open>rt_queue_receive_timed\<close>: \<open>w\<close> is the caller with its wait
  area, \<open>st\<close> the status of \<open>syncobj_wait_grant\<close> (\<open>None\<close> for zero).
\<close>

definition rt_queue_receive_resume ::
  "alchemy_queue \<Rightarrow> threadobj \<Rightarrow> error option \<Rightarrow> error + nat \<times> nat" where
  "rt_queue_receive_resume q w st =
     (case st of
        Some e \<Rightarrow> Inl e
      | None \<Rightarrow>
          (case msg (wait w) of
             None \<Rightarrow> Inl Dangling
           | Some a \<Rightarrow>
               (case msg_at (hobj q) a of
                  None \<Rightarrow> Inl Dangling
                | Some m \<Rightarrow> ssize_ret (msg_size m) a)))"

text \<open>
  The label \<open>transfer\<close> of \<open>rt_queue_read_timed\<close>: copy, truncated to the reader's
  area, and give the buffer back to the pool whatever its count.
\<close>

definition read_transfer ::
  "alchemy_queue \<Rightarrow> nat \<Rightarrow> byte list \<Rightarrow> nat \<Rightarrow> (error + nat \<times> byte list) \<times> alchemy_queue" where
  "read_transfer q a buf sz =
     (case msg_at (hobj q) a of
        None \<Rightarrow> (Inl Dangling, q)
      | Some m \<Rightarrow>
          (let ret = ssize_t_of (if msg_size m > sz then sz else msg_size m);
               buf' = (if ret > 0 then memcpy buf (payload m) (nat ret) else buf)
           in (if ret < 0 then Inl (Negative ret) else Inr (nat ret, buf'),
               q\<lparr>hobj := heapobj_free (hobj q) a\<rparr>)))"

text \<open>
  \<open>rt_queue_read_timed\<close>; \<open>buf\<close> is the contents of the caller's area of \<open>sz\<close>
  bytes. A success returns the number of bytes copied and the area.
\<close>

definition rt_queue_read_timed ::
  "alchemy_queue \<Rightarrow> threadobj option \<Rightarrow> byte list \<Rightarrow> nat \<Rightarrow> timeout
     \<Rightarrow> (error + nat \<times> byte list) outcome \<times> alchemy_queue" where
  "rt_queue_read_timed q cur buf sz abs_timeout =
     (if \<not> threadobj_current_p cur \<and> \<not> alchemy_poll_mode abs_timeout then (Return (Inl EPERM), q)
      else if sz = 0 then (Return (Inr (0, buf)), q)
      else if \<not> magic q then (Return (Inl EINVAL), q)
      else (case mq q of
        a # rest \<Rightarrow>
          (let (r, q') = read_transfer (q\<lparr>mq := rest, mcount := mcount q - 1\<rparr>) a buf sz
           in (Return r, q'))
      | [] \<Rightarrow>
          if alchemy_poll_mode abs_timeout then (Return (Inl EWOULDBLOCK), q)
          else (case cur of
            None \<Rightarrow> (Return (Inl EPERM), q)
          | Some t \<Rightarrow>
              (Suspended,
               q\<lparr>sobj := syncobj_wait_grant (mode q)
                         (t\<lparr>wait := \<lparr>userbuf = buf, usersz = sz, msg = None\<rparr>\<rparr>) (sobj q)\<rparr>))))"

definition rt_queue_read_resume ::
  "alchemy_queue \<Rightarrow> threadobj \<Rightarrow> nat \<Rightarrow> error option \<Rightarrow> (error + nat \<times> byte list) \<times> alchemy_queue" where
  "rt_queue_read_resume q w sz st =
     (case st of
        Some e \<Rightarrow> (Inl e, q)
      | None \<Rightarrow>
          (case msg (wait w) of
             Some a \<Rightarrow> read_transfer q a (userbuf (wait w)) sz
           | None \<Rightarrow> (ssize_ret (usersz (wait w)) (userbuf (wait w)), q)))"

subsection \<open>Flushing\<close>

definition rt_queue_flush :: "alchemy_queue \<Rightarrow> (error + nat) \<times> alchemy_queue" where
  "rt_queue_flush q =
     (if \<not> magic q then (Inl EINVAL, q)
      else (Inr (mcount q),
            q\<lparr>mcount := 0, mq := [], hobj := fold (\<lambda>a h. heapobj_free h a) (mq q) (hobj q)\<rparr>))"

section \<open>Scheduling policies and their configuration (kernel/cobalt/posix/sched.c)\<close>

subsection \<open>Build configuration\<close>

text \<open>
  The constants and the conditional-compilation switches come from headers and from
  the kernel configuration, which are not part of the sources at hand; the functions
  take them as a parameter. \<open>sizeof_tp\<close> and \<open>sizeof_quota\<close> are
  \<open>sizeof(config->tp)\<close> and \<open>sizeof(config->quota)\<close>. \<open>QUOTA_INIT_PERCENT\<close> is the
  share a new quota group starts with.
\<close>

record kconfig =
  OPT_SCHED_WEAK :: bool
  OPT_SCHED_SPORADIC :: bool
  OPT_SCHED_TP :: bool
  OPT_SCHED_QUOTA :: bool
  XNSCHED_FIFO_MIN_PRIO :: int
  XNSCHED_FIFO_MAX_PRIO :: int
  XNSCHED_CORE_MIN_PRIO :: int
  XNSCHED_CORE_MAX_PRIO :: int
  XNSCHED_WEAK_MIN_PRIO :: int
  XNSCHED_WEAK_MAX_PRIO :: int
  SCHED_TP_NRPART :: int
  sizeof_tp :: nat
  sizeof_quota :: nat
  QUOTA_INIT_PERCENT :: int

text \<open>\<open>xnticks_t\<close> is an unsigned 64-bit count of nanoseconds.\<close>

type_synonym xnticks_t = "64 word"

definition XN_INFINITE :: xnticks_t where "XN_INFINITE = 0"

subsection \<open>Resolving a policy\<close>

text \<open>
  The policy numbers the \<open>switch\<close> knows, and any other number. A \<open>struct timespec\<close>
  of \<open>sched_param_ex\<close> is held as the nanoseconds \<open>ts2ns\<close> makes of it.
\<close>

datatype policy =
  SCHED_NORMAL | SCHED_WEAK | SCHED_RR | SCHED_FIFO | SCHED_COBALT
  | SCHED_SPORADIC | SCHED_TP | SCHED_QUOTA | SCHED_UNKNOWN int

record sched_param_ex =
  sched_priority :: int
  sched_rr_quantum :: xnticks_t
  sched_ss_low_priority :: int
  sched_ss_init_budget :: xnticks_t
  sched_ss_repl_period :: xnticks_t
  sched_ss_max_repl :: int
  sched_tp_partition :: int
  sched_quota_group :: int

datatype xnsched_class =
  xnsched_class_rt | xnsched_class_weak | xnsched_class_sporadic
  | xnsched_class_tp | xnsched_class_quota

text \<open>
  \<open>union xnsched_policy_param\<close>, as the member that was written last:
  \<open>rt.prio\<close>, \<open>weak.prio\<close>, the six \<open>pss\<close> fields, \<open>tp.prio\<close> and \<open>tp.ptid\<close>,
  \<open>quota.prio\<close> and \<open>quota.tgid\<close>.
\<close>

record pss_param =
  normal_prio :: int
  low_prio :: int
  current_prio :: int
  init_budget :: xnticks_t
  repl_period :: xnticks_t
  max_repl :: int

datatype xnsched_policy_param =
  param_rt int | param_weak int | param_pss pss_param | param_tp int int | param_quota int int

text \<open>
  \<open>prio = -prio\<close> on a C \<open>int\<close>: the negation of \<open>INT_MIN\<close> does not fit; two's
  complement hardware leaves it unchanged.
\<close>

definition neg_int :: "int \<Rightarrow> int" where
  "neg_int p = (if p = - (2 ^ 31) then p else - p)"

text \<open>
  \<open>cobalt_sched_policy_param\<close>. The result is the class (\<open>None\<close> is NULL), the
  contents of \<open>*param\<close> and of \<open>*tslice_r\<close> on return (\<open>tslice_r = None\<close> is a NULL
  pointer). \<open>param->rt.prio\<close> is written before the \<open>switch\<close>, \<open>*tslice_r\<close> only
  after it.
\<close>

definition check_range ::
  "int \<Rightarrow> int \<Rightarrow> int \<Rightarrow> xnsched_class \<Rightarrow> xnsched_policy_param \<Rightarrow> xnticks_t \<Rightarrow> xnticks_t option
     \<Rightarrow> xnsched_class option \<times> xnsched_policy_param \<times> xnticks_t option" where
  "check_range prio lo hi cls param tslice tslice_r =
     (if prio < lo \<or> prio > hi then (None, param_rt prio, tslice_r)
      else (Some cls, param, map_option (\<lambda>_. tslice) tslice_r))"

definition weak_case ::
  "kconfig \<Rightarrow> int \<Rightarrow> xnticks_t option
     \<Rightarrow> xnsched_class option \<times> xnsched_policy_param \<times> xnticks_t option" where
  "weak_case k prio tslice_r =
     (if OPT_SCHED_WEAK k
      then check_range prio (XNSCHED_WEAK_MIN_PRIO k) (XNSCHED_WEAK_MAX_PRIO k)
             xnsched_class_weak (param_weak prio) XN_INFINITE tslice_r
      else if prio \<noteq> 0 then (None, param_rt prio, tslice_r)
      else (Some xnsched_class_rt, param_rt prio, map_option (\<lambda>_. XN_INFINITE) tslice_r))"

definition cobalt_sched_policy_param ::
  "kconfig \<Rightarrow> xnsched_policy_param \<Rightarrow> policy \<Rightarrow> sched_param_ex \<Rightarrow> xnticks_t option
     \<Rightarrow> xnsched_class option \<times> xnsched_policy_param \<times> xnticks_t option" where
  "cobalt_sched_policy_param k param u_policy param_ex tslice_r =
     (let prio = (if sched_priority param_ex < 0 then neg_int (sched_priority param_ex)
                  else sched_priority param_ex);
          policy = (if sched_priority param_ex < 0 then SCHED_WEAK else u_policy);
          reject = (None, param_rt prio, tslice_r);
          accept = (\<lambda>cls p. (Some cls, p, map_option (\<lambda>_. XN_INFINITE) tslice_r))
      in case policy of
           SCHED_NORMAL \<Rightarrow> if prio \<noteq> 0 then reject else weak_case k prio tslice_r
         | SCHED_WEAK \<Rightarrow> weak_case k prio tslice_r
         | SCHED_RR \<Rightarrow>
             (let tslice = (if sched_rr_quantum param_ex = XN_INFINITE
                            then (case tslice_r of None \<Rightarrow> sched_rr_quantum param_ex
                                                | Some t \<Rightarrow> t)
                            else sched_rr_quantum param_ex)
              in check_range prio (XNSCHED_FIFO_MIN_PRIO k) (XNSCHED_FIFO_MAX_PRIO k)
                   xnsched_class_rt (param_rt prio) tslice tslice_r)
         | SCHED_FIFO \<Rightarrow>
             check_range prio (XNSCHED_FIFO_MIN_PRIO k) (XNSCHED_FIFO_MAX_PRIO k)
               xnsched_class_rt (param_rt prio) XN_INFINITE tslice_r
         | SCHED_COBALT \<Rightarrow>
             check_range prio (XNSCHED_CORE_MIN_PRIO k) (XNSCHED_CORE_MAX_PRIO k)
               xnsched_class_rt (param_rt prio) XN_INFINITE tslice_r
         | SCHED_SPORADIC \<Rightarrow>
             if OPT_SCHED_SPORADIC k
             then accept xnsched_class_sporadic
                    (param_pss \<lparr>normal_prio = sched_priority param_ex,
                                low_prio = sched_ss_low_priority param_ex,
                                current_prio = sched_priority param_ex,
                                init_budget = sched_ss_init_budget param_ex,
                                repl_period = sched_ss_repl_period param_ex,
                                max_repl = sched_ss_max_repl param_ex\<rparr>)
             else reject
         | SCHED_TP \<Rightarrow>
             if OPT_SCHED_TP k
             then accept xnsched_class_tp
                    (param_tp (sched_priority param_ex) (sched_tp_partition param_ex))
             else reject
         | SCHED_QUOTA \<Rightarrow>
             if OPT_SCHED_QUOTA k
             then accept xnsched_class_quota
                    (param_quota (sched_priority param_ex) (sched_quota_group param_ex))
             else reject
         | SCHED_UNKNOWN n \<Rightarrow> reject)"

text \<open>The system calls \<open>sched_minprio\<close> and \<open>sched_maxprio\<close>: the window of a policy.\<close>

definition sched_minprio :: "kconfig \<Rightarrow> policy \<Rightarrow> error + int" where
  "sched_minprio k policy =
     (case policy of
        SCHED_FIFO \<Rightarrow> Inr (XNSCHED_FIFO_MIN_PRIO k)
      | SCHED_RR \<Rightarrow> Inr (XNSCHED_FIFO_MIN_PRIO k)
      | SCHED_SPORADIC \<Rightarrow> Inr (XNSCHED_FIFO_MIN_PRIO k)
      | SCHED_TP \<Rightarrow> Inr (XNSCHED_FIFO_MIN_PRIO k)
      | SCHED_QUOTA \<Rightarrow> Inr (XNSCHED_FIFO_MIN_PRIO k)
      | SCHED_COBALT \<Rightarrow> Inr (XNSCHED_CORE_MIN_PRIO k)
      | SCHED_NORMAL \<Rightarrow> Inr 0
      | SCHED_WEAK \<Rightarrow> Inr 0
      | SCHED_UNKNOWN n \<Rightarrow> Inl EINVAL)"

definition sched_maxprio :: "kconfig \<Rightarrow> policy \<Rightarrow> error + int" where
  "sched_maxprio k policy =
     (case policy of
        SCHED_FIFO \<Rightarrow> Inr (XNSCHED_FIFO_MAX_PRIO k)
      | SCHED_RR \<Rightarrow> Inr (XNSCHED_FIFO_MAX_PRIO k)
      | SCHED_SPORADIC \<Rightarrow> Inr (XNSCHED_FIFO_MAX_PRIO k)
      | SCHED_TP \<Rightarrow> Inr (XNSCHED_FIFO_MAX_PRIO k)
      | SCHED_QUOTA \<Rightarrow> Inr (XNSCHED_FIFO_MAX_PRIO k)
      | SCHED_COBALT \<Rightarrow> Inr (XNSCHED_CORE_MAX_PRIO k)
      | SCHED_NORMAL \<Rightarrow> Inr 0
      | SCHED_WEAK \<Rightarrow> Inr (if OPT_SCHED_WEAK k then XNSCHED_FIFO_MAX_PRIO k else 0)
      | SCHED_UNKNOWN n \<Rightarrow> Inl EINVAL)"

subsection \<open>Temporal partitioning\<close>

text \<open>
  \<open>struct sched_tp_window\<close> is a window as the caller gives it, its two
  \<open>struct timespec\<close> held as the nanoseconds \<open>ts2ns\<close> makes of them (and \<open>ns2ts\<close>
  turns back). \<open>struct xnsched_tp_window\<close> and \<open>struct xnsched_tp_schedule\<close> are the
  kernel's table; \<open>gps_refcount\<close> is its \<open>atomic_t refcount\<close>.
\<close>

record sched_tp_window =
  offset :: xnticks_t
  duration :: xnticks_t
  ptid :: int

text \<open>
  Modelled from the spec: \<open>ts2ns\<close> of the clock header is not part of the sources at
  hand. It converts a \<open>struct timespec\<close>, whose two fields are signed, into the time
  base of the scheduler: the nanoseconds, plus the seconds times \<open>10^9\<close> when there
  are any, in \<open>xnticks_t\<close>. A negative field goes into the unsigned type as the
  value of the same bits. \<open>u_tp_window\<close> is \<open>struct sched_tp_window\<close> with its
  \<open>timespec\<close> fields as the caller fills them in, and \<open>tp_window_ns\<close> what
  \<open>set_tp_config\<close> reads from it.
\<close>

record timespec =
  tv_sec :: int
  tv_nsec :: int

definition ts2ns :: "timespec \<Rightarrow> xnticks_t" where
  "ts2ns ts =
     (if tv_sec ts \<noteq> 0 then word_of_int (tv_nsec ts) + word_of_int (tv_sec ts) * 1000000000
      else word_of_int (tv_nsec ts))"

record u_tp_window =
  u_offset :: timespec
  u_duration :: timespec
  u_ptid :: int

definition tp_window_ns :: "u_tp_window \<Rightarrow> sched_tp_window" where
  "tp_window_ns p = \<lparr>offset = ts2ns (u_offset p), duration = ts2ns (u_duration p), ptid = u_ptid p\<rparr>"

record xnsched_tp_window =
  w_offset :: xnticks_t
  w_part :: int

record xnsched_tp_schedule =
  pwin_nr :: nat
  tf_duration :: xnticks_t
  gps_refcount :: int
  pwins :: "xnsched_tp_window list"

text \<open>
  The tables live in kernel memory, by address. \<open>tp_gps\<close> is \<open>sched->tp.gps\<close> of
  each CPU, \<open>tp_wnext\<close> the index of the window the CPU rotates to next.
\<close>

record tp_state =
  tp_heap :: "nat \<Rightarrow> xnsched_tp_schedule option"
  tp_gps :: "nat \<Rightarrow> nat option"
  tp_wnext :: "nat \<Rightarrow> nat"

text \<open>
  Modelled from the spec: \<open>xnsched_tp_set_schedule\<close>, \<open>xnsched_tp_start_schedule\<close>,
  \<open>xnsched_tp_get_schedule\<close> and \<open>xnsched_tp_put_schedule\<close> of the TP class are not
  part of the sources at hand. The new table is swapped in and the old one handed
  back; the rotating window index is (re)armed; a reader takes a reference on the
  table it looks at; a reference is released, and the table destroyed once
  unreferenced.
\<close>

definition xnsched_tp_set_schedule :: "tp_state \<Rightarrow> nat \<Rightarrow> nat option \<Rightarrow> nat option \<times> tp_state" where
  "xnsched_tp_set_schedule st cpu gps = (tp_gps st cpu, st\<lparr>tp_gps := (tp_gps st)(cpu := gps)\<rparr>)"

definition xnsched_tp_start_schedule :: "tp_state \<Rightarrow> nat \<Rightarrow> tp_state" where
  "xnsched_tp_start_schedule st cpu = st\<lparr>tp_wnext := (tp_wnext st)(cpu := 0)\<rparr>"

definition xnsched_tp_get_schedule :: "tp_state \<Rightarrow> nat \<Rightarrow> nat option \<times> tp_state" where
  "xnsched_tp_get_schedule st cpu =
     (case tp_gps st cpu of
        None \<Rightarrow> (None, st)
      | Some g \<Rightarrow>
          (Some g,
           st\<lparr>tp_heap := (tp_heap st)(g := map_option
                  (\<lambda>t. t\<lparr>gps_refcount := gps_refcount t + 1\<rparr>) (tp_heap st g))\<rparr>))"

definition xnsched_tp_put_schedule :: "tp_state \<Rightarrow> nat \<Rightarrow> tp_state" where
  "xnsched_tp_put_schedule st g =
     (case tp_heap st g of
        None \<Rightarrow> st
      | Some t \<Rightarrow>
          if gps_refcount t - 1 = 0 then st\<lparr>tp_heap := (tp_heap st)(g := None)\<rparr>
          else st\<lparr>tp_heap := (tp_heap st)(g \<mapsto> t\<lparr>gps_refcount := gps_refcount t - 1\<rparr>)\<rparr>)"

text \<open>
  The loop of \<open>set_tp_config\<close> over the caller's windows: \<open>None\<close> is the jump to
  \<open>cleanup_and_fail\<close>, otherwise the final \<open>next_offset\<close> and the windows filled in.
\<close>

fun tp_fill ::
  "kconfig \<Rightarrow> sched_tp_window list \<Rightarrow> xnticks_t \<Rightarrow> xnsched_tp_window list
     \<Rightarrow> (xnticks_t \<times> xnsched_tp_window list) option" where
  "tp_fill k [] next_offset ws = Some (next_offset, ws)"
| "tp_fill k (p # ps) next_offset ws =
     (if offset p \<noteq> next_offset then None
      else if duration p \<le> 0 then None
      else if ptid p < - 1 \<or> ptid p \<ge> SCHED_TP_NRPART k then None
      else tp_fill k ps (next_offset + duration p)
             (ws @ [\<lparr>w_offset = next_offset, w_part = ptid p\<rparr>]))"

text \<open>The part of \<open>set_tp_config\<close> from the label \<open>set_schedule\<close> on.\<close>

definition tp_install :: "tp_state \<Rightarrow> nat \<Rightarrow> nat option \<Rightarrow> (error + nat) \<times> tp_state" where
  "tp_install st cpu gps =
     (let (ogps, st1) = xnsched_tp_set_schedule st cpu gps;
          st2 = xnsched_tp_start_schedule st1 cpu
      in case ogps of
           None \<Rightarrow> (Inr 0, st2)
         | Some og \<Rightarrow> (Inr 0, xnsched_tp_put_schedule st2 og))"

text \<open>
  \<open>set_tp_config\<close> with \<open>CONFIG_XENO_OPT_SCHED_TP\<close>. \<open>windows\<close> is
  \<open>config->tp.windows\<close>, and \<open>config->tp.nr_windows\<close> its length; \<open>gps_mem\<close> is the
  address \<open>xnmalloc\<close> returned, or \<open>None\<close> for NULL. A candidate that fails is freed
  again, so it never shows in the state.
\<close>

definition set_tp_config ::
  "kconfig \<Rightarrow> tp_state \<Rightarrow> nat \<Rightarrow> sched_tp_window list \<Rightarrow> nat \<Rightarrow> nat option
     \<Rightarrow> (error + nat) \<times> tp_state" where
  "set_tp_config k st cpu windows len gps_mem =
     (if len < sizeof_tp k then (Inl EINVAL, st)
      else if length windows = 0 then tp_install st cpu None
      else (case gps_mem of
        None \<Rightarrow> (Inl EINVAL, st)
      | Some g \<Rightarrow>
          (case tp_fill k windows 0 [] of
             None \<Rightarrow> (Inl EINVAL, st)
           | Some (next_offset, ws) \<Rightarrow>
               tp_install
                 (st\<lparr>tp_heap := (tp_heap st)(g \<mapsto>
                        \<lparr>pwin_nr = length windows, tf_duration = next_offset,
                         gps_refcount = 1, pwins = ws\<rparr>)\<rparr>)
                 cpu (Some g))))"

text \<open>
  The loop of \<open>get_tp_config\<close>. \<open>n\<close> indexes both \<open>p\<close> and \<open>w\<close>; \<open>pp\<close> and \<open>pw\<close>
  trail them by one step: \<open>pp = p, p++, pw = w, w++, n++\<close>.
\<close>

function get_loop ::
  "xnsched_tp_window list \<Rightarrow> nat \<Rightarrow> nat \<Rightarrow> nat \<Rightarrow> nat \<Rightarrow> sched_tp_window list
     \<Rightarrow> sched_tp_window list \<times> nat \<times> nat" where
  "get_loop gw nr n pp pw cw =
     (if n < nr then
        (let cw1 = cw[n := (cw ! n)\<lparr>offset := w_offset (gw ! n)\<rparr>];
             cw2 = cw1[pp := (cw1 ! pp)\<lparr>duration := w_offset (gw ! n) - w_offset (gw ! pw)\<rparr>];
             cw3 = cw2[n := (cw2 ! n)\<lparr>ptid := w_part (gw ! n)\<rparr>]
         in get_loop gw nr (n + 1) n n cw3)
      else (cw, pp, pw))"
  by pat_completeness auto
termination
  by (relation "measure (\<lambda>(gw, nr, n, pp, pw, cw). nr - n)") auto

declare get_loop.simps [simp del]

text \<open>
  \<open>get_tp_config\<close> with \<open>CONFIG_XENO_OPT_SCHED_TP\<close>. \<open>config_ok\<close> says whether
  \<open>xnmalloc\<close> returned the buffer, \<open>junk\<close> is what an element of the fresh buffer
  holds, \<open>put_config\<close> is the caller's function. The result is the return value, the
  windows handed to \<open>put_config\<close> if it was called, and the state.
\<close>

definition get_tp_config ::
  "tp_state \<Rightarrow> nat \<Rightarrow> bool \<Rightarrow> sched_tp_window \<Rightarrow> (sched_tp_window list \<Rightarrow> error + nat)
     \<Rightarrow> ((error + nat) \<times> sched_tp_window list option) \<times> tp_state" where
  "get_tp_config st cpu config_ok junk put_config =
     (case xnsched_tp_get_schedule st cpu of
        (None, st1) \<Rightarrow> ((Inr 0, None), st1)
      | (Some g, st1) \<Rightarrow>
          (case tp_heap st1 g of
             None \<Rightarrow> ((Inl Dangling, None), st1)
           | Some gps \<Rightarrow>
               if \<not> config_ok then ((Inl ENOMEM, None), xnsched_tp_put_schedule st1 g)
               else
                 (let (cw, pp, pw) =
                        get_loop (pwins gps) (pwin_nr gps) 0 0 0 (replicate (pwin_nr gps) junk);
                      config = cw[pp := (cw ! pp)\<lparr>duration :=
                                   tf_duration gps - w_offset (pwins gps ! pw)\<rparr>]
                  in ((put_config config, Some config), xnsched_tp_put_schedule st1 g))))"

subsection \<open>Quota groups\<close>

text \<open>
  \<open>struct xnsched_quota_group\<close> and \<open>struct cobalt_sched_group\<close> around it.
  \<open>g_cpu\<close> is the CPU of the group's scheduler, \<open>nr_threads\<close> the number of its
  members. \<open>kq\<close> is the queue set the group was created in: the global one, or the one
  of a process.
\<close>

datatype kqueues = Global_kq | Process_kq nat

record xnsched_quota_group =
  tgid :: int
  g_cpu :: nat
  quota_percent :: int
  quota_peak_percent :: int
  nr_threads :: nat

record cobalt_sched_group =
  quota :: xnsched_quota_group
  pshared :: bool
  kq :: kqueues

text \<open>\<open>struct __sched_quota_info\<close>, the answer copied back to the caller.\<close>

record sched_quota_info =
  i_tgid :: int
  i_quota :: int
  i_quota_peak :: int
  i_quota_sum :: int

text \<open>\<open>p->op\<close> with the arguments of its member of the union.\<close>

datatype quota_op =
  sched_quota_add bool
  | sched_quota_remove int
  | sched_quota_force_remove int
  | sched_quota_set int int int
  | sched_quota_other

definition cobalt_kqueues :: "nat \<Rightarrow> bool \<Rightarrow> kqueues" where
  "cobalt_kqueues caller shared = (if shared then Global_kq else Process_kq caller)"

text \<open>
  Modelled from the spec: \<open>xnsched_quota_create_group\<close>, \<open>xnsched_quota_find_group\<close>,
  \<open>xnsched_quota_destroy_group\<close>, \<open>xnsched_quota_set_limit\<close> and
  \<open>xnsched_quota_sum_all\<close> of the quota class are not part of the sources at hand.
  The registry is the list of all groups. Creation gives the group an identifier
  that is not in use and updates the aggregate. Removal of a group that still has
  members is rejected unless forced; forced, the membership is drained and the group
  destroyed. \<open>set_limit\<close> updates the ceilings and recomputes the aggregate. Every
  operation hands back, through \<open>quota_sum_r\<close>, the aggregate of the CPU as the
  operation leaves it, which is the plain sum of the groups' shares: nothing caps
  it. The spec names no reason for which the quota class would refuse to create a
  group; \<open>refusal\<close> is the status \<open>xnsched_quota_create_group\<close> returns when it
  does, \<open>None\<close> when it returns 0.
\<close>

definition xnsched_quota_sum_all :: "cobalt_sched_group list \<Rightarrow> nat \<Rightarrow> int" where
  "xnsched_quota_sum_all gs cpu =
     sum_list (map (\<lambda>g. quota_percent (quota g)) (filter (\<lambda>g. g_cpu (quota g) = cpu) gs))"

definition fresh_tgid :: "cobalt_sched_group list \<Rightarrow> int" where
  "fresh_tgid gs = fold (\<lambda>g m. max m (tgid (quota g) + 1)) gs 0"

definition xnsched_quota_create_group ::
  "kconfig \<Rightarrow> cobalt_sched_group list \<Rightarrow> nat \<Rightarrow> error option
     \<Rightarrow> error + xnsched_quota_group \<times> int" where
  "xnsched_quota_create_group k gs cpu refusal =
     (case refusal of
        Some e \<Rightarrow> Inl e
      | None \<Rightarrow>
          (let tg = \<lparr>tgid = fresh_tgid gs, g_cpu = cpu, quota_percent = QUOTA_INIT_PERCENT k,
                     quota_peak_percent = QUOTA_INIT_PERCENT k, nr_threads = 0\<rparr>
           in Inr (tg, quota_percent tg + xnsched_quota_sum_all gs cpu)))"

definition xnsched_quota_find_group ::
  "cobalt_sched_group list \<Rightarrow> nat \<Rightarrow> int \<Rightarrow> cobalt_sched_group option" where
  "xnsched_quota_find_group gs cpu i =
     find (\<lambda>g. g_cpu (quota g) = cpu \<and> tgid (quota g) = i) gs"

definition xnsched_quota_destroy_group ::
  "cobalt_sched_group list \<Rightarrow> nat \<Rightarrow> cobalt_sched_group \<Rightarrow> bool \<Rightarrow> error + int" where
  "xnsched_quota_destroy_group gs cpu g force =
     (if nr_threads (quota g) \<noteq> 0 \<and> \<not> force then Inl EBUSY
      else Inr (xnsched_quota_sum_all (remove1 g gs) cpu))"

definition xnsched_quota_set_limit ::
  "cobalt_sched_group list \<Rightarrow> nat \<Rightarrow> cobalt_sched_group \<Rightarrow> int \<Rightarrow> int
     \<Rightarrow> cobalt_sched_group \<times> int" where
  "xnsched_quota_set_limit gs cpu g q qp =
     (let g' = g\<lparr>quota := (quota g)\<lparr>quota_percent := q, quota_peak_percent := qp\<rparr>\<rparr>
      in (g', xnsched_quota_sum_all (map (\<lambda>x. if x = g then g' else x) gs) cpu))"

text \<open>The tail of \<open>set_quota_config\<close>: the four fields of the answer.\<close>

definition quota_info :: "xnsched_quota_group \<Rightarrow> int \<Rightarrow> sched_quota_info" where
  "quota_info tg quota_sum =
     \<lparr>i_tgid = tgid tg, i_quota = quota_percent tg, i_quota_peak = quota_peak_percent tg,
      i_quota_sum = quota_sum\<rparr>"

text \<open>The two removal operations share their code.\<close>

definition quota_remove ::
  "cobalt_sched_group list \<Rightarrow> nat \<Rightarrow> nat \<Rightarrow> int \<Rightarrow> bool
     \<Rightarrow> (error + sched_quota_info) \<times> cobalt_sched_group list" where
  "quota_remove gs cpu caller i force =
     (case xnsched_quota_find_group gs cpu i of
        None \<Rightarrow> (Inl ESRCH, gs)
      | Some g \<Rightarrow>
          if kq g \<noteq> cobalt_kqueues caller (pshared g) then (Inl ESRCH, gs)
          else (case xnsched_quota_destroy_group gs cpu g force of
            Inl e \<Rightarrow> (Inl e, gs)
          | Inr quota_sum \<Rightarrow> (Inr (quota_info (quota g) quota_sum), remove1 g gs)))"

text \<open>
  \<open>set_quota_config\<close> with \<open>CONFIG_XENO_OPT_SCHED_QUOTA\<close>. \<open>caller\<close> is the calling
  process, \<open>group_ok\<close> says whether \<open>xnmalloc\<close> returned the group, \<open>refusal\<close> is
  the status of \<open>xnsched_quota_create_group\<close>. The local \<open>quota_sum\<close> is what the
  callee stored through \<open>&quota_sum\<close>, and goes into the answer unchanged. After a
  removal the answer is read from the group just freed; the model reads what the
  group held.
\<close>

definition set_quota_config ::
  "kconfig \<Rightarrow> cobalt_sched_group list \<Rightarrow> nat \<Rightarrow> nat \<Rightarrow> quota_op \<Rightarrow> nat \<Rightarrow> bool
     \<Rightarrow> error option \<Rightarrow> (error + sched_quota_info) \<times> cobalt_sched_group list" where
  "set_quota_config k gs cpu caller qop len group_ok refusal =
     (if len < sizeof_quota k then (Inl EINVAL, gs)
      else case qop of
        sched_quota_add shared \<Rightarrow>
          if \<not> group_ok then (Inl ENOMEM, gs)
          else (case xnsched_quota_create_group k gs cpu refusal of
            Inl e \<Rightarrow> (Inl e, gs)
          | Inr (tg, quota_sum) \<Rightarrow>
              (Inr (quota_info tg quota_sum),
               \<lparr>quota = tg, pshared = shared, kq = cobalt_kqueues caller shared\<rparr> # gs))
      | sched_quota_remove i \<Rightarrow> quota_remove gs cpu caller i False
      | sched_quota_force_remove i \<Rightarrow> quota_remove gs cpu caller i True
      | sched_quota_set i q qp \<Rightarrow>
          (case xnsched_quota_find_group gs cpu i of
             None \<Rightarrow> (Inl ESRCH, gs)
           | Some g \<Rightarrow>
               if kq g \<noteq> cobalt_kqueues caller (pshared g) then (Inl ESRCH, gs)
               else
                 (let (g', quota_sum) = xnsched_quota_set_limit gs cpu g q qp
                  in (Inr (quota_info (quota g') quota_sum),
                      map (\<lambda>x. if x = g then g' else x) gs)))
      | sched_quota_other \<Rightarrow> (Inl EINVAL, gs))"

subsection \<open>Statements about queues\<close>

text \<open>
  Vocabulary of the statements about queues. \<open>add_refcount h a n\<close> is the pool
  after \<open>n\<close> increments of the count of the buffer at \<open>a\<close>; \<open>grant_count\<close> is the
  number of waiters one pass of the grant loop serves; \<open>attach a w\<close> is the waiter
  \<open>w\<close> with the message at \<open>a\<close> in its wait area.
\<close>

definition add_refcount :: "alchemy_queue_msg option list \<Rightarrow> nat \<Rightarrow> nat \<Rightarrow> alchemy_queue_msg option list" where
  "add_refcount h a n = h[a := map_option (\<lambda>m. m\<lparr>refcount := refcount m + n\<rparr>) (msg_at h a)]"

definition grant_count :: "32 word \<Rightarrow> alchemy_queue \<Rightarrow> nat" where
  "grant_count md q = (if md AND Q_BROADCAST \<noteq> 0 then length (sobj q) else min 1 (length (sobj q)))"

definition attach :: "nat \<Rightarrow> threadobj \<Rightarrow> threadobj" where
  "attach a w = w\<lparr>wait := (wait w)\<lparr>msg := Some a\<rparr>\<rparr>"

text \<open>
  The counter agrees with the pending list, and nobody waits while a message is
  pending.
\<close>

definition queue_inv :: "alchemy_queue \<Rightarrow> bool" where
  "queue_inv q = (mcount q = length (mq q) \<and> (sobj q \<noteq> [] \<longrightarrow> mq q = []))"

text \<open>
  The states a queue can be in: what \<open>rt_queue_create\<close> returns, and what the
  services make of such a state, called with any arguments. \<open>by_fill\<close> is the owner
  of a buffer writing its payload, \<open>by_drop\<close> a waiter that times out or is
  unblocked. Deleting the queue ends its life and is no step.
\<close>

inductive reach :: "alchemy_queue \<Rightarrow> bool" where
  by_create: "rt_queue_create irq poolsize qlimit md qcb_ok pool name_clash = Inr q \<Longrightarrow> reach q"
| by_alloc: "reach q \<Longrightarrow> rt_queue_alloc q sz = (ra, q') \<Longrightarrow> reach q'"
| by_free: "reach q \<Longrightarrow> rt_queue_free q buf = (r, q') \<Longrightarrow> reach q'"
| by_fill: "reach q \<Longrightarrow> msg_at (hobj q) a = Some m \<Longrightarrow>
         reach (q\<lparr>hobj := (hobj q)[a := Some (m\<lparr>payload := bs\<rparr>)]\<rparr>)"
| by_send: "reach q \<Longrightarrow> rt_queue_send q buf sz md = (r, q') \<Longrightarrow> reach q'"
| by_write: "reach q \<Longrightarrow> rt_queue_write q bs sz md = (r, q') \<Longrightarrow> reach q'"
| by_receive: "reach q \<Longrightarrow> rt_queue_receive_timed q cur t = (rr, q') \<Longrightarrow> reach q'"
| by_read: "reach q \<Longrightarrow> rt_queue_read_timed q cur bs sz t = (rd, q') \<Longrightarrow> reach q'"
| by_read_resume: "reach q \<Longrightarrow> rt_queue_read_resume q w sz st = (rs, q') \<Longrightarrow> reach q'"
| by_flush: "reach q \<Longrightarrow> rt_queue_flush q = (r, q') \<Longrightarrow> reach q'"
| by_drop: "reach q \<Longrightarrow> reach (q\<lparr>sobj := syncobj_drop t (sobj q)\<rparr>)"

text \<open>
  Sample states. \<open>q1_0\<close> to \<open>q1_4\<close> follow a queue of limit 1 through an
  allocation, a send, a second allocation and a flush; \<open>q4\<close> has three receivers
  of another process blocked in \<open>rt_queue_receive\<close>; \<open>q7\<close> has one local reader
  blocked with an area of four bytes; \<open>q8\<close> holds one buffer and nobody waits.
  \<open>qb_0\<close> to \<open>qb_4\<close> follow an unlimited queue on which the thread \<open>t_rcv\<close> blocks
  in \<open>rt_queue_receive\<close> and the thread \<open>t_rdr\<close> in \<open>rt_queue_read\<close> with an area of
  two bytes, a broadcast write of two bytes wakes both, and the reader resumes.
\<close>

definition q1_0 :: alchemy_queue where
  "q1_0 = \<lparr>magic = True, mode = Q_FIFO, limit = 1, mq = [], mcount = 0,
           hobj = [None, None], sobj = [], woken = []\<rparr>"

definition q1_1 :: alchemy_queue where
  "q1_1 = q1_0\<lparr>hobj := [Some \<lparr>msg_size = 2, refcount = 1, payload = [0, 0]\<rparr>, None]\<rparr>"

definition q1_2 :: alchemy_queue where
  "q1_2 = q1_0\<lparr>hobj := [Some \<lparr>msg_size = 2, refcount = 0, payload = [0, 0]\<rparr>, None],
               mq := [0], mcount := 1\<rparr>"

definition q1_3 :: alchemy_queue where
  "q1_3 = q1_0\<lparr>hobj := [Some \<lparr>msg_size = 2, refcount = 0, payload = [0, 0]\<rparr>,
                        Some \<lparr>msg_size = 2, refcount = 1, payload = [0, 0]\<rparr>],
               mq := [0], mcount := 1\<rparr>"

definition q1_4 :: alchemy_queue where
  "q1_4 = q1_0\<lparr>hobj := [None, Some \<lparr>msg_size = 2, refcount = 1, payload = [0, 0]\<rparr>]\<rparr>"

definition wr :: "nat \<Rightarrow> threadobj" where
  "wr i = \<lparr>tid = i, t_prio = 1, is_local = False,
           wait = \<lparr>userbuf = [], usersz = 0, msg = None\<rparr>\<rparr>"

definition q4 :: alchemy_queue where
  "q4 = \<lparr>magic = True, mode = Q_FIFO, limit = 0, mq = [], mcount = 0,
         hobj = [Some \<lparr>msg_size = 2, refcount = 1, payload = [0, 0]\<rparr>, None],
         sobj = [wr 1, wr 2, wr 3], woken = []\<rparr>"

definition w7 :: threadobj where
  "w7 = \<lparr>tid = 1, t_prio = 10, is_local = True,
          wait = \<lparr>userbuf = [0, 0, 0, 0], usersz = 4, msg = None\<rparr>\<rparr>"

definition q7 :: alchemy_queue where
  "q7 = \<lparr>magic = True, mode = Q_FIFO, limit = 0, mq = [], mcount = 0,
         hobj = [None, None], sobj = [w7], woken = []\<rparr>"

definition q8 :: alchemy_queue where
  "q8 = \<lparr>magic = True, mode = Q_FIFO, limit = 0, mq = [], mcount = 0,
         hobj = [Some \<lparr>msg_size = 4, refcount = 1, payload = [1, 2, 3, 4]\<rparr>],
         sobj = [], woken = []\<rparr>"

definition t_rcv :: threadobj where
  "t_rcv = \<lparr>tid = 1, t_prio = 1, is_local = True,
             wait = \<lparr>userbuf = [], usersz = 0, msg = None\<rparr>\<rparr>"

definition t_rdr :: threadobj where
  "t_rdr = \<lparr>tid = 2, t_prio = 1, is_local = True,
             wait = \<lparr>userbuf = [], usersz = 0, msg = None\<rparr>\<rparr>"

definition rcv_woken :: threadobj where
  "rcv_woken = t_rcv\<lparr>wait := \<lparr>userbuf = [], usersz = 0, msg = Some 0\<rparr>\<rparr>"

definition rdr_woken :: threadobj where
  "rdr_woken = t_rdr\<lparr>wait := \<lparr>userbuf = [0, 0], usersz = 2, msg = Some 0\<rparr>\<rparr>"

definition qb_0 :: alchemy_queue where
  "qb_0 = \<lparr>magic = True, mode = Q_FIFO, limit = 0, mq = [], mcount = 0,
           hobj = [None, None], sobj = [], woken = []\<rparr>"

definition qb_1 :: alchemy_queue where
  "qb_1 = qb_0\<lparr>sobj := [t_rcv]\<rparr>"

definition qb_2 :: alchemy_queue where
  "qb_2 = qb_0\<lparr>sobj := [t_rcv, t_rdr\<lparr>wait := \<lparr>userbuf = [0, 0], usersz = 2, msg = None\<rparr>\<rparr>]\<rparr>"

definition qb_3 :: alchemy_queue where
  "qb_3 = qb_0\<lparr>hobj := [Some \<lparr>msg_size = 2, refcount = 2, payload = [5, 6]\<rparr>, None],
               woken := [rcv_woken, rdr_woken]\<rparr>"

definition qb_4 :: alchemy_queue where
  "qb_4 = qb_3\<lparr>hobj := [None, None]\<rparr>"

subsection \<open>Statements about the scheduler\<close>

text \<open>
  The priority the resolver works with: the absolute value of the one requested.
\<close>

definition abs_prio :: "int \<Rightarrow> int" where
  "abs_prio p = (if p < 0 then neg_int p else p)"

text \<open>
  Vocabulary of the statements about schedules. \<open>running_sum ps i\<close> is the sum of
  the durations of the first \<open>i\<close> windows, in \<open>xnticks_t\<close> arithmetic;
  \<open>new_table ws\<close> is the table a valid list of windows makes; \<open>fresh_mem st g\<close>
  says that the address \<open>g\<close> holds no table and is installed nowhere, as holds of
  what \<open>xnmalloc\<close> returns.
\<close>

definition to_pwin :: "sched_tp_window \<Rightarrow> xnsched_tp_window" where
  "to_pwin p = \<lparr>w_offset = offset p, w_part = ptid p\<rparr>"

definition running_sum :: "sched_tp_window list \<Rightarrow> nat \<Rightarrow> xnticks_t" where
  "running_sum ps i = sum_list (map duration (take i ps))"

definition new_table :: "sched_tp_window list \<Rightarrow> xnsched_tp_schedule" where
  "new_table ws = \<lparr>pwin_nr = length ws, tf_duration = sum_list (map duration ws),
                   gps_refcount = 1, pwins = map to_pwin ws\<rparr>"

definition fresh_mem :: "tp_state \<Rightarrow> nat \<Rightarrow> bool" where
  "fresh_mem st g = (tp_heap st g = None \<and> (\<forall>c. tp_gps st c \<noteq> Some g))"

text \<open>
  What holds at the head of the loop of \<open>get_tp_config\<close> before iteration \<open>n\<close>:
  the elements below \<open>n\<close> have their offset and partition, those below \<open>n - 1\<close>
  their duration, and the trailing pointers stand at \<open>n - 1\<close>.
\<close>

definition get_inv ::
  "xnsched_tp_window list \<Rightarrow> nat \<Rightarrow> nat \<Rightarrow> nat \<Rightarrow> sched_tp_window list \<Rightarrow> bool" where
  "get_inv gw n pp pw cw =
     (length cw = length gw \<and> n \<le> length gw \<and> pp = n - 1 \<and> pw = n - 1 \<and>
      (\<forall>i<n. offset (cw ! i) = w_offset (gw ! i) \<and> ptid (cw ! i) = w_part (gw ! i)) \<and>
      (\<forall>i. Suc i < n \<longrightarrow> duration (cw ! i) = w_offset (gw ! Suc i) - w_offset (gw ! i)))"

text \<open>
  The snapshot of a table in the words of the specification: the offset and the
  partition of each window, and a duration that is the next offset minus its own,
  for the last window the length of the cycle minus its own offset.
\<close>

definition tp_snapshot :: "xnsched_tp_schedule \<Rightarrow> sched_tp_window list" where
  "tp_snapshot t =
     map (\<lambda>i. \<lparr>offset = w_offset (pwins t ! i),
               duration = (if Suc i < length (pwins t) then w_offset (pwins t ! Suc i)
                           else tf_duration t) - w_offset (pwins t ! i),
               ptid = w_part (pwins t ! i)\<rparr>) [0..<length (pwins t)]"

text \<open>
  Two groups created on one CPU and brought to 60 and to 70 percent: the answers
  of the four calls.
\<close>

definition quota_demo ::
  "kconfig \<Rightarrow> nat \<Rightarrow> nat \<Rightarrow> nat \<Rightarrow> (error + sched_quota_info) list" where
  "quota_demo k cpu caller len =
     (let (r1, gs1) = set_quota_config k [] cpu caller (sched_quota_add False) len True None;
          (r2, gs2) = set_quota_config k gs1 cpu caller (sched_quota_set 0 60 60) len True None;
          (r3, gs3) = set_quota_config k gs2 cpu caller (sched_quota_add False) len True None;
          (r4, gs4) = set_quota_config k gs3 cpu caller (sched_quota_set 1 70 70) len True None
      in [r1, r2, r3, r4])"

text \<open>Two groups created on one CPU, and nothing else: the answers of the two calls.\<close>

definition quota_adds ::
  "kconfig \<Rightarrow> nat \<Rightarrow> nat \<Rightarrow> nat \<Rightarrow> (error + sched_quota_info) list" where
  "quota_adds k cpu caller len =
     (let (r1, gs1) = set_quota_config k [] cpu caller (sched_quota_add False) len True None;
          (r2, gs2) = set_quota_config k gs1 cpu caller (sched_quota_add False) len True None
      in [r1, r2])"

text \<open>
  Sample inputs: a configuration with every class compiled in, a parameter block
  of a given priority, a CPU that runs an old table of one window, the three windows
  of offsets 0, 10, 25 and durations 10, 15, 5, and the state after the three
  windows are installed; a single window whose duration is the \<open>timespec\<close> of minus
  five nanoseconds, and the state after that window is installed.
\<close>

definition k0 :: kconfig where
  "k0 = \<lparr>OPT_SCHED_WEAK = True, OPT_SCHED_SPORADIC = True, OPT_SCHED_TP = True,
         OPT_SCHED_QUOTA = True,
         XNSCHED_FIFO_MIN_PRIO = 1, XNSCHED_FIFO_MAX_PRIO = 256,
         XNSCHED_CORE_MIN_PRIO = 0, XNSCHED_CORE_MAX_PRIO = 259,
         XNSCHED_WEAK_MIN_PRIO = 0, XNSCHED_WEAK_MAX_PRIO = 99,
         SCHED_TP_NRPART = 4, sizeof_tp = 8, sizeof_quota = 16, QUOTA_INIT_PERCENT = 100\<rparr>"

definition pex :: "int \<Rightarrow> sched_param_ex" where
  "pex p = \<lparr>sched_priority = p, sched_rr_quantum = 0, sched_ss_low_priority = 0,
            sched_ss_init_budget = 0, sched_ss_repl_period = 0, sched_ss_max_repl = 0,
            sched_tp_partition = 1, sched_quota_group = 0\<rparr>"

definition old_table :: xnsched_tp_schedule where
  "old_table = \<lparr>pwin_nr = 1, tf_duration = 50, gps_refcount = 1,
                 pwins = [\<lparr>w_offset = 0, w_part = 0\<rparr>]\<rparr>"

definition tp1 :: tp_state where
  "tp1 = \<lparr>tp_heap = [1 \<mapsto> old_table], tp_gps = [0 \<mapsto> 1], tp_wnext = (\<lambda>c. 2)\<rparr>"

definition ws_ok :: "sched_tp_window list" where
  "ws_ok = [\<lparr>offset = 0, duration = 10, ptid = 0\<rparr>,
            \<lparr>offset = 10, duration = 15, ptid = - 1\<rparr>,
            \<lparr>offset = 25, duration = 5, ptid = 1\<rparr>]"

definition tp2 :: tp_state where
  "tp2 = \<lparr>tp_heap = [2 \<mapsto> new_table ws_ok], tp_gps = [0 \<mapsto> 2],
          tp_wnext = (\<lambda>c. 2)(0 := 0)\<rparr>"

definition junk0 :: sched_tp_window where
  "junk0 = \<lparr>offset = 99, duration = 99, ptid = 99\<rparr>"

definition uw_neg :: "u_tp_window list" where
  "uw_neg = [\<lparr>u_offset = \<lparr>tv_sec = 0, tv_nsec = 0\<rparr>,
              u_duration = \<lparr>tv_sec = 0, tv_nsec = - 5\<rparr>, u_ptid = 0\<rparr>]"

definition tp_neg :: tp_state where
  "tp_neg = \<lparr>tp_heap = [2 \<mapsto> \<lparr>pwin_nr = 1, tf_duration = 18446744073709551611,
                                gps_refcount = 1, pwins = [\<lparr>w_offset = 0, w_part = 0\<rparr>]\<rparr>],
             tp_gps = [0 \<mapsto> 2], tp_wnext = (\<lambda>c. 2)(0 := 0)\<rparr>"

section \<open>Properties of the message queues\<close>

subsection \<open>The pool and the grant loop\<close>

lemma add_refcount_0: "add_refcount h a 0 = h"
  by (cases "a < length h") (simp_all add: add_refcount_def msg_at_def option.map_ident not_less list_update_beyond)

lemma msg_at_update: "msg_at (h[a := v]) b = (if a = b \<and> a < length h then v else msg_at h b)"
  by (auto simp: msg_at_def)

lemma msg_at_length: "msg_at h a = Some m \<Longrightarrow> a < length h"
  by (simp add: msg_at_def split: if_splits)

lemma msg_at_same: "a < length h \<Longrightarrow> msg_at (h[a := v]) a = v"
  by (simp add: msg_at_def)

lemma length_add_refcount [simp]: "length (add_refcount h a n) = length h"
  by (simp add: add_refcount_def)

lemma msg_at_add_refcount:
  "msg_at (add_refcount h a n) a = map_option (\<lambda>m. m\<lparr>refcount := refcount m + n\<rparr>) (msg_at h a)"
  by (auto simp: add_refcount_def msg_at_def)

lemma incr_add_refcount: "incr_refcount (add_refcount h a n) a = add_refcount h a (Suc n)"
  by (cases "msg_at h a") (auto simp: incr_refcount_def add_refcount_def msg_at_update msg_at_def)

lemma add_incr_refcount: "add_refcount (incr_refcount h a) a n = add_refcount h a (Suc n)"
  by (cases "msg_at h a") (auto simp: incr_refcount_def add_refcount_def msg_at_update msg_at_def)

lemma grant_count_hobj [simp]: "grant_count md (q\<lparr>hobj := h\<rparr>) = grant_count md q"
  by (simp add: grant_count_def)

lemma grant_loop_eq:
  "grant_loop md a q ret =
     (ret + grant_count md q,
      q\<lparr>sobj := drop (grant_count md q) (sobj q),
        woken := woken q @ map (attach a) (take (grant_count md q) (sobj q)),
        hobj := add_refcount (hobj q) a (grant_count md q)\<rparr>)"
proof (induction md a q ret rule: grant_loop.induct)
  case (1 md a q ret)
  show ?case
  proof (cases "sobj q")
    case Nil
    then show ?thesis
      by (subst grant_loop.simps) (simp add: syncobj_grant_one_def grant_count_def add_refcount_0)
  next
    case (Cons w ws)
    show ?thesis
    proof (cases "md AND Q_BROADCAST \<noteq> 0")
      case True
      then show ?thesis using Cons 1
        apply (subst grant_loop.simps)
        apply (simp add: syncobj_grant_one_def grant_count_def Let_def attach_def add_incr_refcount)
        done
    next
      case False
      then show ?thesis using Cons
        apply (subst grant_loop.simps)
        apply (simp add: syncobj_grant_one_def grant_count_def Let_def attach_def add_refcount_def incr_refcount_def)
        done
    qed
  qed
qed

lemma grant_loop_nil: "sobj q = [] \<Longrightarrow> grant_loop md a q ret = (ret, q)"
  by (subst grant_loop.simps) (simp add: syncobj_grant_one_def)

lemma heapobj_alloc_free: "heapobj_alloc h = Some a \<Longrightarrow> a < length h \<and> h ! a = None"
  by (induction h arbitrary: a rule: heapobj_alloc.induct) auto

subsection \<open>The invariant of a queue\<close>

lemma inv_create: "rt_queue_create irq poolsize qlimit md qcb_ok pool name_clash = Inr q \<Longrightarrow> queue_inv q"
  by (auto simp: rt_queue_create_def queue_inv_def split: if_splits sum.splits)

lemma inv_alloc: "queue_inv q \<Longrightarrow> rt_queue_alloc q sz = (ra, q') \<Longrightarrow> queue_inv q'"
  by (auto simp: rt_queue_alloc_def queue_inv_def split: if_splits option.splits)

lemma inv_free: "queue_inv q \<Longrightarrow> rt_queue_free q buf = (r, q') \<Longrightarrow> queue_inv q'"
  by (auto simp: rt_queue_free_def heapobj_validate_def queue_inv_def split: if_splits option.splits)

lemma inv_grant:
  assumes "queue_inv q" and "grant_loop md a q ret = (n, q')"
  shows "queue_inv q' \<and> (sobj q \<noteq> [] \<longrightarrow> n \<noteq> ret) \<and> (sobj q = [] \<longrightarrow> q' = q \<and> n = ret) \<and>
         mq q' = mq q \<and> mcount q' = mcount q"
proof (cases "sobj q")
  case Nil
  then show ?thesis using assms by (simp add: grant_loop_nil)
next
  case (Cons w ws)
  then have "grant_count md q \<noteq> 0" by (simp add: grant_count_def)
  then show ?thesis using assms Cons
    by (auto simp: grant_loop_eq queue_inv_def)
qed

lemma inv_hobj [simp]: "queue_inv (q\<lparr>hobj := h\<rparr>) = queue_inv q"
  by (simp add: queue_inv_def)

lemma inv_send: "queue_inv q \<Longrightarrow> rt_queue_send q buf sz md = (r, q') \<Longrightarrow> queue_inv q'"
proof -
  assume i: "queue_inv q" and s: "rt_queue_send q buf sz md = (r, q')"
  show ?thesis
  proof (cases "\<exists>a m. buf = Some a \<and> magic q \<and> \<not> (limit q \<noteq> 0 \<and> limit q \<le> mcount q) \<and>
                   msg_at (hobj q) a = Some m \<and> refcount m \<noteq> 0")
    case False
    then have "q' = q" using s
      by (auto simp: rt_queue_send_def split: option.splits if_splits)
    then show ?thesis using i by simp
  next
    case True
    then obtain a m where b: "buf = Some a" "magic q" "\<not> (limit q \<noteq> 0 \<and> limit q \<le> mcount q)"
      "msg_at (hobj q) a = Some m" "refcount m \<noteq> 0" by blast
    define q1 where "q1 = q\<lparr>hobj := (hobj q)[a := Some (m\<lparr>refcount := refcount m - 1, msg_size := sz\<rparr>)]\<rparr>"
    obtain n q2 where g: "grant_loop md a q1 0 = (n, q2)" by (cases "grant_loop md a q1 0")
    have i1: "queue_inv q1" using i by (simp add: q1_def)
    from inv_grant [OF i1 g] have i2: "queue_inv q2" and nz: "sobj q1 \<noteq> [] \<longrightarrow> n \<noteq> 0"
      and e: "sobj q1 = [] \<longrightarrow> q2 = q1 \<and> n = 0" by simp_all
    have "rt_queue_send q buf sz md = (if n \<noteq> 0 then (Inr n, q2)
                   else if md AND Q_BROADCAST \<noteq> 0
                     then (Inr n, q2\<lparr>hobj := incr_refcount (hobj q2) a\<rparr>)
                     else (Inr n, q2\<lparr>mcount := mcount q2 + 1,
                                        mq := (if md AND Q_URGENT \<noteq> 0
                                               then list_prepend a (mq q2)
                                               else list_append a (mq q2))\<rparr>))"
      using b g by (auto simp: rt_queue_send_def q1_def Let_def)
    then have s': "(r, q') = (if n \<noteq> 0 then (Inr n, q2)
                   else if md AND Q_BROADCAST \<noteq> 0
                     then (Inr n, q2\<lparr>hobj := incr_refcount (hobj q2) a\<rparr>)
                     else (Inr n, q2\<lparr>mcount := mcount q2 + 1,
                                        mq := (if md AND Q_URGENT \<noteq> 0
                                               then list_prepend a (mq q2)
                                               else list_append a (mq q2))\<rparr>))"
      using s by simp
    show ?thesis
    proof (cases "n = 0")
      case False
      then show ?thesis using s' i2 by simp
    next
      case True
      then have "sobj q2 = []" using nz e by auto
      then show ?thesis using s' i2 True
        by (auto simp: queue_inv_def list_prepend_def list_append_def split: if_splits)
    qed
  qed
qed

lemma inv_write_enqueue:
  assumes i: "queue_inv q" and s: "write_enqueue q bs sz md = (r, q')"
  shows "queue_inv q'"
proof (cases "heapobj_alloc (hobj q)")
  case None
  then have "q' = q" using s
    by (auto simp: write_enqueue_def Let_def split: if_splits)
  then show ?thesis using i by simp
next
  case (Some a)
  define q1 where "q1 = q\<lparr>hobj := (hobj q)[a := Some \<lparr>msg_size = sz, refcount = 0,
                                     payload = memcpy (replicate sz 0) bs sz\<rparr>]\<rparr>"
  obtain n q2 where g: "grant_loop md a q1 0 = (n, q2)" by (cases "grant_loop md a q1 0")
  have i1: "queue_inv q1" using i by (simp add: q1_def)
  from inv_grant [OF i1 g] have i2: "queue_inv q2" by simp
  have c: "q' = q \<or> q' = q2 \<or>
           (sobj q = [] \<and> q' = q1\<lparr>mcount := mcount q1 + 1,
                                  mq := (if md AND Q_URGENT \<noteq> 0
                                         then list_prepend a (mq q1)
                                         else list_append a (mq q1))\<rparr>)"
    using s Some g
    by (auto simp: write_enqueue_def syncobj_count_grant_def q1_def Let_def split: if_splits)
  then show ?thesis using i i1 i2
    by (auto simp: queue_inv_def q1_def list_prepend_def list_append_def split: if_splits)
qed

lemma inv_write:
  assumes i: "queue_inv q" and s: "rt_queue_write q bs sz md = (r, q')"
  shows "queue_inv q'"
proof -
  have "q' = q \<or> write_enqueue q bs sz md = (r, q') \<or>
        (\<exists>w ws wk. sobj q = w # ws \<and> q' = q\<lparr>sobj := ws, woken := wk\<rparr>)"
    using s
    by (auto simp: rt_queue_write_def Let_def syncobj_peek_grant_def syncobj_grant_to_def
          split: if_splits list.splits)
  then show ?thesis using i
    by (auto simp: queue_inv_def dest: inv_write_enqueue [OF i])
qed

lemma inv_sobj_grow: "queue_inv q \<Longrightarrow> mq q = [] \<Longrightarrow> queue_inv (q\<lparr>sobj := ws\<rparr>)"
  by (simp add: queue_inv_def)

lemma inv_pop: "queue_inv q \<Longrightarrow> mq q = a # rest \<Longrightarrow> queue_inv (q\<lparr>mq := rest, mcount := mcount q - 1\<rparr>)"
  by (auto simp: queue_inv_def)

lemma inv_receive:
  "queue_inv q \<Longrightarrow> rt_queue_receive_timed q cur t = (rr, q') \<Longrightarrow> queue_inv q'"
  by (auto simp: rt_queue_receive_timed_def queue_inv_def
        split: if_splits option.splits list.splits)

lemma inv_read_transfer: "queue_inv q \<Longrightarrow> read_transfer q a bs sz = (r, q') \<Longrightarrow> queue_inv q'"
  by (auto simp: read_transfer_def Let_def split: option.splits)

lemma inv_read:
  assumes "queue_inv q" and "rt_queue_read_timed q cur bs sz t = (rd, q')"
  shows "queue_inv q'"
proof (cases "mq q")
  case Nil
  then show ?thesis using assms
    by (auto simp: rt_queue_read_timed_def queue_inv_def split: if_splits option.splits)
next
  case (Cons a rest)
  show ?thesis
  proof (cases "(\<not> threadobj_current_p cur \<and> \<not> alchemy_poll_mode t) \<or> sz = 0 \<or> \<not> magic q")
    case True
    then have "q' = q" using assms(2) by (auto simp: rt_queue_read_timed_def split: if_splits)
    then show ?thesis using assms(1) by simp
  next
    case False
    obtain r q2 where t: "read_transfer (q\<lparr>mq := rest, mcount := mcount q - 1\<rparr>) a bs sz = (r, q2)"
      by (cases "read_transfer (q\<lparr>mq := rest, mcount := mcount q - 1\<rparr>) a bs sz")
    have "q' = q2" using assms(2) False Cons t by (auto simp: rt_queue_read_timed_def)
    then show ?thesis using inv_read_transfer [OF inv_pop [OF assms(1) Cons] t] by simp
  qed
qed

lemma inv_read_resume:
  "queue_inv q \<Longrightarrow> rt_queue_read_resume q w sz st = (rs, q') \<Longrightarrow> queue_inv q'"
  by (auto simp: rt_queue_read_resume_def split: option.splits dest: inv_read_transfer)

lemma inv_flush: "rt_queue_flush q = (r, q') \<Longrightarrow> queue_inv q \<Longrightarrow> queue_inv q'"
  by (auto simp: rt_queue_flush_def queue_inv_def split: if_splits)

lemma inv_drop: "queue_inv q \<Longrightarrow> queue_inv (q\<lparr>sobj := syncobj_drop t (sobj q)\<rparr>)"
  by (auto simp: queue_inv_def syncobj_drop_def)

lemma reach_inv: "reach q \<Longrightarrow> queue_inv q"
proof (induction rule: reach.induct)
  case (by_create irq poolsize qlimit md qcb_ok pool name_clash q)
  then show ?case by (rule inv_create)
next
  case (by_alloc q sz ra q')
  then show ?case by (blast intro: inv_alloc)
next
  case (by_free q buf r q')
  then show ?case by (blast intro: inv_free)
next
  case (by_fill q a m bs)
  then show ?case by simp
next
  case (by_send q buf sz md r q')
  then show ?case by (blast intro: inv_send)
next
  case (by_write q bs sz md r q')
  then show ?case by (blast intro: inv_write)
next
  case (by_receive q cur t rr q')
  then show ?case by (blast intro: inv_receive)
next
  case (by_read q cur bs sz t rd q')
  then show ?case by (blast intro: inv_read)
next
  case (by_read_resume q w sz st rs q')
  then show ?case by (blast intro: inv_read_resume)
next
  case (by_flush q r q')
  then show ?case by (blast intro: inv_flush)
next
  case (by_drop q t)
  then show ?case by (simp add: inv_drop)
qed

lemma reach_q1_3: "reach q1_3"
proof -
  have "rt_queue_create False 64 1 Q_FIFO True (Inr [None, None]) False = Inr q1_0"
    by (simp add: rt_queue_create_def q1_0_def Q_FIFO_def Q_PRIO_def)
  then have r0: "reach q1_0" by (rule reach.by_create)
  have "rt_queue_alloc q1_0 2 = (Some 0, q1_1)"
    by (simp add: rt_queue_alloc_def q1_0_def q1_1_def numeral_2_eq_2)
  with r0 have r1: "reach q1_1" by (rule reach.by_alloc)
  have "rt_queue_send q1_1 (Some 0) 2 Q_NORMAL = (Inr 0, q1_2)"
    by (simp add: rt_queue_send_def q1_0_def q1_1_def q1_2_def msg_at_def grant_loop_nil
          Q_NORMAL_def list_append_def)
  with r1 have r2: "reach q1_2" by (rule reach.by_send)
  have "rt_queue_alloc q1_2 2 = (Some 1, q1_3)"
    by (simp add: rt_queue_alloc_def q1_0_def q1_2_def q1_3_def numeral_2_eq_2)
  with r2 show ?thesis by (rule reach.by_alloc)
qed

subsection \<open>Reference counts\<close>

lemma alloc_refcount:
  "rt_queue_alloc q sz = (Some a, q') \<Longrightarrow> map_option refcount (msg_at (hobj q') a) = Some 1"
  by (auto simp: rt_queue_alloc_def msg_at_def split: if_splits option.splits
        dest: heapobj_alloc_free)

lemma send_refcount:
  assumes m: "msg_at (hobj q) a = Some m" and s: "rt_queue_send q (Some a) sz md = (Inr n, q')" and n: "n \<noteq> 0"
  shows "map_option refcount (msg_at (hobj q') a) = Some (refcount m - 1 + n) \<and>
         woken q' = woken q @ map (attach a) (take n (sobj q))"
proof -
  have len: "a < length (hobj q)" using m by (rule msg_at_length)
  from s m n have r: "refcount m \<noteq> 0" and n_def: "n = grant_count md q"
    and q': "q' = q\<lparr>hobj := (hobj q)[a := Some (m\<lparr>refcount := refcount m - 1, msg_size := sz\<rparr>)]\<rparr>
                   \<lparr>sobj := drop n (sobj q), woken := woken q @ map (attach a) (take n (sobj q)),
                    hobj := add_refcount ((hobj q)[a := Some (m\<lparr>refcount := refcount m - 1, msg_size := sz\<rparr>)]) a n\<rparr>"
    by (auto simp: rt_queue_send_def grant_loop_eq Let_def split: if_splits)
  show ?thesis
    by (simp add: q' msg_at_add_refcount msg_at_same len)
qed

lemma free_refcount:
  assumes "magic q" and "msg_at (hobj q) a = Some m"
  shows "(refcount m = 0 \<longrightarrow> rt_queue_free q (Some a) = (Inl EINVAL, q)) \<and>
         (refcount m = 1 \<longrightarrow>
            rt_queue_free q (Some a) = (Inr 0, q\<lparr>hobj := heapobj_free (hobj q) a\<rparr>) \<and>
            msg_at (heapobj_free (hobj q) a) a = None) \<and>
         (1 < refcount m \<longrightarrow>
            rt_queue_free q (Some a) =
              (Inr 0, q\<lparr>hobj := (hobj q)[a := Some (m\<lparr>refcount := refcount m - 1\<rparr>)]\<rparr>) \<and>
            map_option refcount (msg_at ((hobj q)[a := Some (m\<lparr>refcount := refcount m - 1\<rparr>)]) a)
              = Some (refcount m - 1))"
  using assms
  by (auto simp: rt_queue_free_def heapobj_validate_def heapobj_free_def msg_at_def)

lemma send_q4:
  "rt_queue_send q4 (Some 0) 2 Q_BROADCAST =
     (Inr 3, q4\<lparr>sobj := [], woken := [attach 0 (wr 1), attach 0 (wr 2), attach 0 (wr 3)],
               hobj := [Some \<lparr>msg_size = 2, refcount = 3, payload = [0, 0]\<rparr>, None]\<rparr>)"
  by (simp add: rt_queue_send_def q4_def msg_at_def grant_loop_eq grant_count_def
        Q_BROADCAST_def add_refcount_def)

lemma write_fast_path_head:
  assumes "magic q" and "sz \<noteq> 0" and "sobj q = w # ws" and "is_local w" and "usersz (wait w) \<noteq> 0"
  shows "rt_queue_write q buf sz md =
           (Inr 1, q\<lparr>sobj := ws,
                     woken := woken q @
                       [w\<lparr>wait := (wait w)\<lparr>
                            userbuf := memcpy (userbuf (wait w)) buf (min sz (usersz (wait w))),
                            usersz := min sz (usersz (wait w))\<rparr>\<rparr>]\<rparr>)"
  using assms
  by (simp add: rt_queue_write_def syncobj_peek_grant_def syncobj_grant_to_def Let_def min_def)

subsection \<open>The claims about queues\<close>

text \<open>
  C1. On every queue that \<open>rt_queue_create\<close> made and the services have worked on,
  \<open>rt_queue_send\<close> fails with \<open>ENOMEM\<close> only if the queue has a limit, the count of
  pending messages has reached it, and no receiver is blocked on the queue; the call
  then leaves the whole queue, the pool with the buffer's count and contents
  included, as it was.
\<close>

theorem send_enomem:
  assumes "reach q" and "rt_queue_send q buf sz md = (Inl ENOMEM, q')"
  shows "limit q \<noteq> Q_UNLIMITED \<and> limit q \<le> mcount q \<and> mcount q = length (mq q) \<and>
         sobj q = [] \<and> q' = q"
proof -
  have i: "queue_inv q" using assms(1) by (rule reach_inv)
  have "limit q \<noteq> 0 \<and> limit q \<le> mcount q \<and> q' = q"
    using assms(2)
    by (auto simp: rt_queue_send_def Let_def split: option.splits if_splits prod.splits)
  then show ?thesis using i by (auto simp: queue_inv_def Q_UNLIMITED_def)
qed

text \<open>
  The queue of limit 1 with one pending message: the second send fails, and after a
  flush a send succeeds again.
\<close>

theorem send_enomem_witness:
  "reach q1_3 \<and> rt_queue_send q1_3 (Some 1) 2 Q_NORMAL = (Inl ENOMEM, q1_3) \<and>
   limit q1_3 = 1 \<and> mcount q1_3 = 1 \<and> sobj q1_3 = [] \<and>
   rt_queue_flush q1_3 = (Inr 1, q1_4) \<and>
   fst (rt_queue_send q1_4 (Some 1) 2 Q_NORMAL) = Inr 0"
proof -
  have s: "rt_queue_send q1_3 (Some 1) 2 Q_NORMAL = (Inl ENOMEM, q1_3)"
    by (simp add: rt_queue_send_def q1_0_def q1_3_def)
  have f: "rt_queue_flush q1_3 = (Inr 1, q1_4)"
    by (simp add: rt_queue_flush_def q1_0_def q1_3_def q1_4_def heapobj_free_def)
  have t: "fst (rt_queue_send q1_4 (Some 1) 2 Q_NORMAL) = Inr 0"
    by (simp add: rt_queue_send_def q1_0_def q1_4_def msg_at_def grant_loop_nil Q_NORMAL_def)
  from send_enomem [OF reach_q1_3 s] reach_q1_3 s f t
  show ?thesis by (simp add: q1_0_def q1_3_def)
qed

text \<open>
  C4. The count is not what decides the release on every path. A receiver and a
  reader are blocked on a queue; a broadcast write hands both the same buffer and
  sets its count to 2. The reader resumes, copies the payload and gives the buffer
  back to the pool, at a count of 2: the receiver is left with a pointer to a free
  slot, its own resumption reads a header that is gone, and its \<open>rt_queue_free\<close>
  fails with \<open>EINVAL\<close>.
\<close>

theorem read_releases_shared_buffer:
  "rt_queue_create False 64 Q_UNLIMITED Q_FIFO True (Inr [None, None]) False = Inr qb_0 \<and>
   rt_queue_receive_timed qb_0 (Some t_rcv) TM_INFINITE = (Suspended, qb_1) \<and>
   rt_queue_read_timed qb_1 (Some t_rdr) [0, 0] 2 TM_INFINITE = (Suspended, qb_2) \<and>
   rt_queue_write qb_2 [5, 6] 2 Q_BROADCAST = (Inr 2, qb_3) \<and>
   map_option refcount (msg_at (hobj qb_3) 0) = Some 2 \<and>
   woken qb_3 = [rcv_woken, rdr_woken] \<and>
   msg (wait rcv_woken) = Some 0 \<and> msg (wait rdr_woken) = Some 0 \<and>
   rt_queue_read_resume qb_3 rdr_woken 2 None = (Inr (2, [5, 6]), qb_4) \<and>
   msg_at (hobj qb_4) 0 = None \<and>
   rt_queue_receive_resume qb_4 rcv_woken None = Inl Dangling \<and>
   rt_queue_free qb_4 (Some 0) = (Inl EINVAL, qb_4)"
proof -
  have c: "rt_queue_create False 64 Q_UNLIMITED Q_FIFO True (Inr [None, None]) False = Inr qb_0"
    by (simp add: rt_queue_create_def qb_0_def Q_FIFO_def Q_PRIO_def Q_UNLIMITED_def)
  have r: "rt_queue_receive_timed qb_0 (Some t_rcv) TM_INFINITE = (Suspended, qb_1)"
    by (simp add: rt_queue_receive_timed_def qb_0_def qb_1_def t_rcv_def threadobj_current_p_def
          alchemy_poll_mode_def syncobj_wait_grant_def Q_FIFO_def Q_PRIO_def)
  have d: "rt_queue_read_timed qb_1 (Some t_rdr) [0, 0] 2 TM_INFINITE = (Suspended, qb_2)"
    by (simp add: rt_queue_read_timed_def qb_0_def qb_1_def qb_2_def threadobj_current_p_def
          alchemy_poll_mode_def syncobj_wait_grant_def Q_FIFO_def Q_PRIO_def)
  have w: "rt_queue_write qb_2 [5, 6] 2 Q_BROADCAST = (Inr 2, qb_3)"
    by (simp add: rt_queue_write_def write_enqueue_def qb_0_def qb_2_def qb_3_def t_rcv_def
          t_rdr_def rcv_woken_def rdr_woken_def syncobj_peek_grant_def syncobj_count_grant_def
          grant_loop_eq grant_count_def attach_def add_refcount_def msg_at_def memcpy_def
          Q_BROADCAST_def numeral_2_eq_2)
  have m: "map_option refcount (msg_at (hobj qb_3) 0) = Some 2" "woken qb_3 = [rcv_woken, rdr_woken]"
    "msg (wait rcv_woken) = Some 0" "msg (wait rdr_woken) = Some 0"
    by (simp_all add: qb_3_def qb_0_def msg_at_def rcv_woken_def rdr_woken_def)
  have e: "rt_queue_read_resume qb_3 rdr_woken 2 None = (Inr (2, [5, 6]), qb_4)"
    by (simp add: rt_queue_read_resume_def read_transfer_def qb_3_def qb_4_def qb_0_def
          rdr_woken_def msg_at_def ssize_t_of_def memcpy_def heapobj_free_def Let_def)
  have f: "msg_at (hobj qb_4) 0 = None"
    "rt_queue_receive_resume qb_4 rcv_woken None = Inl Dangling"
    "rt_queue_free qb_4 (Some 0) = (Inl EINVAL, qb_4)"
    by (simp_all add: qb_4_def qb_3_def qb_0_def rcv_woken_def msg_at_def
          rt_queue_receive_resume_def rt_queue_free_def heapobj_validate_def)
  from c r d w m e f show ?thesis by simp
qed

text \<open>
  C7. One local reader is blocked with an area of four bytes, and a write of no
  bytes comes in. The call returns 0 at its first statement: nothing is copied,
  the reader is not woken, and no empty message is queued either.
\<close>

theorem write_empty_leaves_reader_blocked:
  "sobj q7 = [w7] \<and> is_local w7 \<and> usersz (wait w7) = 4 \<and>
   rt_queue_write q7 [] 0 Q_NORMAL = (Inr 0, q7) \<and>
   fst (rt_queue_write q7 [] 0 Q_NORMAL) \<noteq> Inr 1"
  by (simp add: q7_def w7_def rt_queue_write_def)

text \<open>
  C8 as stated fails in its last part: a broadcast send with nobody waiting returns
  0 and queues nothing, but the count of the buffer is 1 before and 1 after, so the
  sender still holds its reference.
\<close>

theorem broadcast_keeps_reference_counterexample:
  "fst (rt_queue_send q8 (Some 0) 4 Q_BROADCAST) = Inr 0 \<and>
   mq (snd (rt_queue_send q8 (Some 0) 4 Q_BROADCAST)) = [] \<and>
   map_option refcount (msg_at (hobj q8) 0) = Some 1 \<and>
   map_option refcount (msg_at (hobj (snd (rt_queue_send q8 (Some 0) 4 Q_BROADCAST))) 0) = Some 1"
  by (simp add: q8_def rt_queue_send_def grant_loop_nil msg_at_def Q_BROADCAST_def Q_FIFO_def
        incr_refcount_def)

text \<open>
  C8, amended. A broadcast send of a buffer whose count is not zero, on a valid
  queue that has not reached its limit and has no blocked receiver, returns 0,
  inserts nothing into the pending list and leaves the count of the buffer as it
  was, the sender keeping its reference; only the size is recorded in the header.
  On a valid queue that has reached its limit a send in any mode fails with
  \<open>ENOMEM\<close> and changes nothing. A send of such a buffer on a valid queue below its
  limit succeeds and returns the number of receivers it has woken, which is every
  blocked receiver in broadcast mode and at most one otherwise; and whatever send
  succeeds, the number it returns is the number of receivers that have left the
  grant queue and been made runnable.
\<close>

theorem send_broadcast_no_waiter:
  "(\<forall>q a m sz md. magic q \<and> \<not> (limit q \<noteq> 0 \<and> limit q \<le> mcount q) \<and> msg_at (hobj q) a = Some m \<and>
       refcount m \<noteq> 0 \<and> sobj q = [] \<and> md AND Q_BROADCAST \<noteq> 0 \<longrightarrow>
       rt_queue_send q (Some a) sz md = (Inr 0, q\<lparr>hobj := (hobj q)[a := Some (m\<lparr>msg_size := sz\<rparr>)]\<rparr>)) \<and>
   (\<forall>q a sz md. magic q \<and> limit q \<noteq> 0 \<and> limit q \<le> mcount q \<longrightarrow>
       rt_queue_send q (Some a) sz md = (Inl ENOMEM, q)) \<and>
   (\<forall>q a m sz md. magic q \<and> \<not> (limit q \<noteq> 0 \<and> limit q \<le> mcount q) \<and> msg_at (hobj q) a = Some m \<and>
       refcount m \<noteq> 0 \<longrightarrow>
       fst (rt_queue_send q (Some a) sz md) = Inr (grant_count md q) \<and>
       sobj (snd (rt_queue_send q (Some a) sz md)) = drop (grant_count md q) (sobj q) \<and>
       woken (snd (rt_queue_send q (Some a) sz md)) =
         woken q @ map (attach a) (take (grant_count md q) (sobj q))) \<and>
   (\<forall>q buf sz md n q'. rt_queue_send q buf sz md = (Inr n, q') \<longrightarrow>
       length (sobj q) = length (sobj q') + n \<and> length (woken q') = length (woken q) + n)"
proof (intro conjI allI impI)
  fix q :: alchemy_queue and a :: nat and m :: alchemy_queue_msg and sz :: nat and md :: "32 word"
  assume "magic q \<and> \<not> (limit q \<noteq> 0 \<and> limit q \<le> mcount q) \<and> msg_at (hobj q) a = Some m \<and>
       refcount m \<noteq> 0 \<and> sobj q = [] \<and> md AND Q_BROADCAST \<noteq> 0"
  then show "rt_queue_send q (Some a) sz md =
               (Inr 0, q\<lparr>hobj := (hobj q)[a := Some (m\<lparr>msg_size := sz\<rparr>)]\<rparr>)"
    by (auto simp: rt_queue_send_def grant_loop_nil msg_at_update incr_refcount_def msg_at_def)
next
  fix q :: alchemy_queue and a :: nat and sz :: nat and md :: "32 word"
  assume "magic q \<and> limit q \<noteq> 0 \<and> limit q \<le> mcount q"
  then show "rt_queue_send q (Some a) sz md = (Inl ENOMEM, q)"
    by (simp add: rt_queue_send_def)
next
  fix q :: alchemy_queue and a :: nat and m :: alchemy_queue_msg and sz :: nat and md :: "32 word"
  assume h: "magic q \<and> \<not> (limit q \<noteq> 0 \<and> limit q \<le> mcount q) \<and> msg_at (hobj q) a = Some m \<and>
       refcount m \<noteq> 0"
  have e: "fst (rt_queue_send q (Some a) sz md) = Inr (grant_count md q) \<and>
        sobj (snd (rt_queue_send q (Some a) sz md)) = drop (grant_count md q) (sobj q) \<and>
        woken (snd (rt_queue_send q (Some a) sz md)) =
          woken q @ map (attach a) (take (grant_count md q) (sobj q))"
    using h by (cases "sobj q") (auto simp: rt_queue_send_def grant_loop_eq grant_count_def Let_def)
  show "fst (rt_queue_send q (Some a) sz md) = Inr (grant_count md q)" using e by simp
  show "sobj (snd (rt_queue_send q (Some a) sz md)) = drop (grant_count md q) (sobj q)"
    using e by simp
  show "woken (snd (rt_queue_send q (Some a) sz md)) =
          woken q @ map (attach a) (take (grant_count md q) (sobj q))" using e by simp
next
  fix q buf sz md n q'
  assume s: "rt_queue_send q buf sz md = (Inr n, q')"
  then show "length (sobj q) = length (sobj q') + n"
    by (auto simp: rt_queue_send_def grant_loop_eq grant_count_def Let_def
          split: option.splits if_splits)
  from s show "length (woken q') = length (woken q) + n"
    by (auto simp: rt_queue_send_def grant_loop_eq grant_count_def Let_def
          split: option.splits if_splits)
qed

theorem send_broadcast_no_waiter_witness:
  "rt_queue_send q8 (Some 0) 4 Q_BROADCAST = (Inr 0, q8) \<and>
   reach q1_3 \<and> rt_queue_send q1_3 (Some 1) 2 Q_BROADCAST = (Inl ENOMEM, q1_3) \<and>
   fst (rt_queue_send q4 (Some 0) 2 Q_BROADCAST) = Inr 3 \<and>
   sobj (snd (rt_queue_send q4 (Some 0) 2 Q_BROADCAST)) = [] \<and>
   fst (rt_queue_send q4 (Some 0) 2 Q_NORMAL) = Inr 1 \<and>
   sobj (snd (rt_queue_send q4 (Some 0) 2 Q_NORMAL)) = [wr 2, wr 3] \<and>
   length (sobj q4) = 3"
proof -
  note p1 = send_broadcast_no_waiter [THEN conjunct1, rule_format]
  note p2 = send_broadcast_no_waiter [THEN conjunct2, THEN conjunct1, rule_format]
  note p3 = send_broadcast_no_waiter [THEN conjunct2, THEN conjunct2, THEN conjunct1, rule_format]
  note p4 = send_broadcast_no_waiter [THEN conjunct2, THEN conjunct2, THEN conjunct2, rule_format]
  have "magic q8 \<and> \<not> (limit q8 \<noteq> 0 \<and> limit q8 \<le> mcount q8) \<and>
        msg_at (hobj q8) 0 = Some \<lparr>msg_size = 4, refcount = 1, payload = [1, 2, 3, 4]\<rparr> \<and>
        refcount \<lparr>msg_size = 4, refcount = 1, payload = [1, 2, 3, 4]\<rparr> \<noteq> 0 \<and> sobj q8 = [] \<and>
        Q_BROADCAST AND Q_BROADCAST \<noteq> 0"
    by (simp add: q8_def msg_at_def Q_BROADCAST_def)
  from p1 [OF this, of 4] have a: "rt_queue_send q8 (Some 0) 4 Q_BROADCAST = (Inr 0, q8)"
    by (simp add: q8_def)
  have "magic q1_3 \<and> limit q1_3 \<noteq> 0 \<and> limit q1_3 \<le> mcount q1_3"
    by (simp add: q1_3_def q1_0_def)
  from p2 [OF this] have b: "rt_queue_send q1_3 (Some 1) 2 Q_BROADCAST = (Inl ENOMEM, q1_3)" .
  have h4: "magic q4 \<and> \<not> (limit q4 \<noteq> 0 \<and> limit q4 \<le> mcount q4) \<and>
        msg_at (hobj q4) 0 = Some \<lparr>msg_size = 2, refcount = 1, payload = [0, 0]\<rparr> \<and>
        refcount \<lparr>msg_size = 2, refcount = 1, payload = [0, 0]\<rparr> \<noteq> 0"
    by (simp add: q4_def msg_at_def)
  have g: "grant_count Q_BROADCAST q4 = 3" "grant_count Q_NORMAL q4 = 1"
    by (simp_all add: grant_count_def q4_def Q_BROADCAST_def Q_NORMAL_def)
  from p3 [OF h4, of 2 Q_BROADCAST] g
  have c: "fst (rt_queue_send q4 (Some 0) 2 Q_BROADCAST) = Inr 3"
    "sobj (snd (rt_queue_send q4 (Some 0) 2 Q_BROADCAST)) = []"
    by (simp_all add: q4_def)
  from p3 [OF h4, of 2 Q_NORMAL] g
  have d: "fst (rt_queue_send q4 (Some 0) 2 Q_NORMAL) = Inr 1"
    "sobj (snd (rt_queue_send q4 (Some 0) 2 Q_NORMAL)) = [wr 2, wr 3]"
    by (simp_all add: q4_def)
  from p4 [OF send_q4] have e: "length (sobj q4) = 3" by simp
  from a b c d e reach_q1_3 show ?thesis by simp
qed

text \<open>
  C9. A receive or a read with a timeout other than \<open>TM_NONBLOCK\<close>, called from a
  context that is not a Xenomai thread, returns \<open>EPERM\<close> at once and leaves the queue
  untouched. The test comes before the queue is looked at, so it holds whether or
  not a message is pending, and in particular when none is.
\<close>

theorem blocking_receive_eperm:
  "abs_timeout \<noteq> TM_NONBLOCK \<Longrightarrow>
   rt_queue_receive_timed q None abs_timeout = (Return (Inl EPERM), q) \<and>
   rt_queue_read_timed q None buf sz abs_timeout = (Return (Inl EPERM), q)"
  by (simp add: rt_queue_receive_timed_def rt_queue_read_timed_def threadobj_current_p_def
        alchemy_poll_mode_def)

theorem blocking_receive_eperm_witness:
  "mq q1_0 = [] \<and> TM_INFINITE \<noteq> TM_NONBLOCK \<and>
   rt_queue_receive_timed q1_0 None TM_INFINITE = (Return (Inl EPERM), q1_0) \<and>
   rt_queue_read_timed q1_0 None [0, 0] 2 TM_INFINITE = (Return (Inl EPERM), q1_0)"
proof -
  have t: "TM_INFINITE \<noteq> TM_NONBLOCK" by simp
  from blocking_receive_eperm [OF t, of q1_0 "[0, 0]" 2] t show ?thesis
    by (simp add: q1_0_def)
qed

text \<open>
  C10. A write of size zero returns 0 and changes nothing, whatever the queue, a
  stale handle included: no buffer is allocated, nothing is queued, nobody is
  woken. A send of size zero, in contrast, queues the buffer as an empty message.
\<close>

theorem write_zero_size:
  "(\<forall>q buf md. rt_queue_write q buf 0 md = (Inr 0, q)) \<and>
   (\<forall>q a m md. magic q \<and> \<not> (limit q \<noteq> 0 \<and> limit q \<le> mcount q) \<and> msg_at (hobj q) a = Some m \<and>
       refcount m \<noteq> 0 \<and> sobj q = [] \<and> md AND Q_BROADCAST = 0 \<longrightarrow>
       (\<exists>q'. rt_queue_send q (Some a) 0 md = (Inr 0, q') \<and> mcount q' = mcount q + 1 \<and>
             a \<in> set (mq q') \<and> map_option msg_size (msg_at (hobj q') a) = Some 0))"
  by (auto simp: rt_queue_write_def rt_queue_send_def grant_loop_nil msg_at_update
        list_prepend_def list_append_def msg_at_def)

theorem write_zero_size_witness:
  "rt_queue_write q1_2 [] 0 Q_NORMAL = (Inr 0, q1_2) \<and>
   rt_queue_write (q1_2\<lparr>magic := False\<rparr>) [] 0 Q_NORMAL = (Inr 0, q1_2\<lparr>magic := False\<rparr>) \<and>
   (\<exists>q'. rt_queue_send q1_1 (Some 0) 0 Q_NORMAL = (Inr 0, q') \<and> mcount q' = 1 \<and>
         0 \<in> set (mq q') \<and> map_option msg_size (msg_at (hobj q') 0) = Some 0)"
proof -
  note p1 = write_zero_size [THEN conjunct1, rule_format]
  note p2 = write_zero_size [THEN conjunct2, rule_format]
  have "magic q1_1 \<and> \<not> (limit q1_1 \<noteq> 0 \<and> limit q1_1 \<le> mcount q1_1) \<and>
        msg_at (hobj q1_1) 0 = Some \<lparr>msg_size = 2, refcount = 1, payload = [0, 0]\<rparr> \<and>
        refcount \<lparr>msg_size = 2, refcount = 1, payload = [0, 0]\<rparr> \<noteq> 0 \<and> sobj q1_1 = [] \<and>
        Q_NORMAL AND Q_BROADCAST = 0"
    by (simp add: q1_1_def q1_0_def msg_at_def Q_NORMAL_def)
  from p2 [OF this]
  have "\<exists>q'. rt_queue_send q1_1 (Some 0) 0 Q_NORMAL = (Inr 0, q') \<and> mcount q' = 1 \<and>
         0 \<in> set (mq q') \<and> map_option msg_size (msg_at (hobj q') 0) = Some 0"
    by (simp add: q1_1_def q1_0_def)
  with p1 [of q1_2 "[]" Q_NORMAL] p1 [of "q1_2\<lparr>magic := False\<rparr>" "[]" Q_NORMAL]
  show ?thesis by simp
qed

section \<open>Properties of the scheduler configuration\<close>

subsection \<open>Windows, tables and quota sums\<close>

lemma running_sum_0 [simp]: "running_sum ps 0 = 0"
  by (simp add: running_sum_def)

lemma running_sum_Cons [simp]: "running_sum (p # ps) (Suc i) = duration p + running_sum ps i"
  by (simp add: running_sum_def)

lemma running_sum_all: "length ps \<le> i \<Longrightarrow> running_sum ps i = sum_list (map duration ps)"
  by (simp add: running_sum_def)

lemma running_sum_Suc:
  "i < length ps \<Longrightarrow> running_sum ps (Suc i) = running_sum ps i + duration (ps ! i)"
  by (simp add: running_sum_def take_Suc_conv_app_nth)

lemma tp_fill_violation:
  "i < length ps \<Longrightarrow> offset (ps ! i) \<noteq> n + running_sum ps i \<or> duration (ps ! i) \<le> 0 \<Longrightarrow>
   tp_fill k ps n ws = None"
proof (induction ps arbitrary: i n ws)
  case Nil
  then show ?case by simp
next
  case (Cons p ps)
  show ?case
  proof (cases i)
    case 0
    then show ?thesis using Cons.prems by auto
  next
    case (Suc j)
    then have "j < length ps"
      and "offset (ps ! j) \<noteq> (n + duration p) + running_sum ps j \<or> duration (ps ! j) \<le> 0"
      using Cons.prems by (auto simp: add.assoc)
    then have "tp_fill k ps (n + duration p) (ws @ [\<lparr>w_offset = n, w_part = ptid p\<rparr>]) = None"
      by (rule Cons.IH)
    then show ?thesis by simp
  qed
qed

lemma tp_fill_result:
  "tp_fill k ps n ws = Some (n', ws') \<Longrightarrow>
   n' = n + sum_list (map duration ps) \<and> ws' = ws @ map to_pwin ps \<and>
   (\<forall>i<length ps. offset (ps ! i) = n + running_sum ps i \<and> duration (ps ! i) \<noteq> 0)"
proof (induction ps arbitrary: n ws)
  case Nil
  then show ?case by simp
next
  case (Cons p ps)
  from Cons.prems have o: "offset p = n" and d: "duration p \<noteq> 0"
    and r: "tp_fill k ps (n + duration p) (ws @ [\<lparr>w_offset = n, w_part = ptid p\<rparr>]) = Some (n', ws')"
    by (auto split: if_splits)
  from Cons.IH [OF r] have ih: "n' = n + duration p + sum_list (map duration ps)"
    "ws' = (ws @ [\<lparr>w_offset = n, w_part = ptid p\<rparr>]) @ map to_pwin ps"
    "\<forall>i<length ps. offset (ps ! i) = n + duration p + running_sum ps i \<and> duration (ps ! i) \<noteq> 0"
    by simp_all
  have "\<forall>i<length (p # ps). offset ((p # ps) ! i) = n + running_sum (p # ps) i \<and> duration ((p # ps) ! i) \<noteq> 0"
  proof (intro allI impI)
    fix i assume "i < length (p # ps)"
    then show "offset ((p # ps) ! i) = n + running_sum (p # ps) i \<and> duration ((p # ps) ! i) \<noteq> 0"
      using o d ih(3) by (cases i) (auto simp: add.assoc)
  qed
  then show ?case using ih(1,2) o by (simp add: to_pwin_def add.assoc)
qed

lemma tp_install_eq:
  "tp_install st cpu gps =
     (Inr 0, case tp_gps st cpu of
               None \<Rightarrow> st\<lparr>tp_gps := (tp_gps st)(cpu := gps), tp_wnext := (tp_wnext st)(cpu := 0)\<rparr>
             | Some og \<Rightarrow> xnsched_tp_put_schedule
                 (st\<lparr>tp_gps := (tp_gps st)(cpu := gps), tp_wnext := (tp_wnext st)(cpu := 0)\<rparr>) og)"
  by (simp add: tp_install_def xnsched_tp_set_schedule_def xnsched_tp_start_schedule_def
        split: option.splits)

lemma put_schedule_fields [simp]:
  "tp_gps (xnsched_tp_put_schedule st g) = tp_gps st"
  "tp_wnext (xnsched_tp_put_schedule st g) = tp_wnext st"
  by (simp_all add: xnsched_tp_put_schedule_def split: option.splits)

lemma put_schedule_heap:
  "tp_heap (xnsched_tp_put_schedule st g) =
     (case tp_heap st g of None \<Rightarrow> tp_heap st
      | Some t \<Rightarrow> (tp_heap st)(g := if gps_refcount t = 1 then None
                                      else Some (t\<lparr>gps_refcount := gps_refcount t - 1\<rparr>)))"
  by (auto simp: xnsched_tp_put_schedule_def split: option.splits)

lemma set_tp_config_success:
  assumes s: "set_tp_config k st cpu ws len (Some g) = (Inr 0, st')" and ne: "ws \<noteq> []"
    and fresh: "fresh_mem st g"
  shows "tp_gps st' = (tp_gps st)(cpu \<mapsto> g) \<and> tp_heap st' g = Some (new_table ws) \<and>
         tp_wnext st' cpu = 0 \<and>
         (\<forall>og t. tp_gps st cpu = Some og \<and> tp_heap st og = Some t \<longrightarrow>
            tp_heap st' og = (if gps_refcount t = 1 then None
                              else Some (t\<lparr>gps_refcount := gps_refcount t - 1\<rparr>))) \<and>
         (\<forall>i<length ws. offset (ws ! i) = running_sum ws i \<and> duration (ws ! i) \<noteq> 0)"
proof -
  from s ne obtain n' ws' where f: "tp_fill k ws 0 [] = Some (n', ws')"
    and st': "st' = snd (tp_install (st\<lparr>tp_heap := (tp_heap st)(g \<mapsto>
                        \<lparr>pwin_nr = length ws, tf_duration = n',
                         gps_refcount = 1, pwins = ws'\<rparr>)\<rparr>) cpu (Some g))"
    by (auto simp: set_tp_config_def split: if_splits option.splits)
  from tp_fill_result [OF f] have n': "n' = sum_list (map duration ws)" and ws': "ws' = map to_pwin ws"
    and c: "\<forall>i<length ws. offset (ws ! i) = running_sum ws i \<and> duration (ws ! i) \<noteq> 0"
    by simp_all
  show ?thesis
    using c fresh
    by (auto simp: st' tp_install_eq n' ws' new_table_def put_schedule_heap fresh_mem_def
          split: option.splits)
qed

lemma set_tp_config_reject:
  assumes "i < length ws" and "offset (ws ! i) \<noteq> running_sum ws i \<or> duration (ws ! i) \<le> 0"
  shows "set_tp_config k st cpu ws len gm = (Inl EINVAL, st)"
proof -
  have "tp_fill k ws 0 [] = None"
    using tp_fill_violation [OF assms(1), of 0 k "[]"] assms(2) by simp
  moreover have "ws \<noteq> []" using assms(1) by auto
  ultimately show ?thesis
    by (simp add: set_tp_config_def split: option.splits)
qed

lemma get_inv_step:
  assumes "get_inv gw n pp pw cw" and "n < length gw"
  shows "get_inv gw (n + 1) n n
           (let cw1 = cw[n := (cw ! n)\<lparr>offset := w_offset (gw ! n)\<rparr>];
                cw2 = cw1[pp := (cw1 ! pp)\<lparr>duration := w_offset (gw ! n) - w_offset (gw ! pw)\<rparr>];
                cw3 = cw2[n := (cw2 ! n)\<lparr>ptid := w_part (gw ! n)\<rparr>]
            in cw3)"
  using assms
  by (auto simp: get_inv_def nth_list_update less_Suc_eq Let_def)

lemma get_loop_inv:
  "get_inv gw n pp pw cw \<Longrightarrow> get_loop gw (length gw) n pp pw cw = (cw', pp', pw') \<Longrightarrow>
   get_inv gw (length gw) pp' pw' cw'"
proof (induction gw "length gw" n pp pw cw rule: get_loop.induct)
  case (1 gw n pp pw cw)
  show ?case
  proof (cases "n < length gw")
    case True
    let ?cw1 = "cw[n := (cw ! n)\<lparr>offset := w_offset (gw ! n)\<rparr>]"
    let ?cw2 = "?cw1[pp := (?cw1 ! pp)\<lparr>duration := w_offset (gw ! n) - w_offset (gw ! pw)\<rparr>]"
    let ?cw3 = "?cw2[n := (?cw2 ! n)\<lparr>ptid := w_part (gw ! n)\<rparr>]"
    have i: "get_inv gw (n + 1) n n ?cw3"
      using get_inv_step [OF "1.prems"(1) True] by (simp add: Let_def)
    have l: "get_loop gw (length gw) (n + 1) n n ?cw3 = (cw', pp', pw')"
      using "1.prems"(2) True by (subst (asm) get_loop.simps) (simp add: Let_def)
    show ?thesis using "1.hyps" [OF True refl refl refl i l] .
  next
    case False
    then have "n = length gw" using "1.prems"(1) by (simp add: get_inv_def)
    moreover have "cw' = cw \<and> pp' = pp \<and> pw' = pw"
      using "1.prems"(2) False by (subst (asm) get_loop.simps) simp
    ultimately show ?thesis using "1.prems"(1) by simp
  qed
qed

lemma get_inv_init: "get_inv gw 0 0 0 (replicate (length gw) junk)"
  by (simp add: get_inv_def)

lemma get_config_snapshot:
  assumes l: "get_loop (pwins t) (length (pwins t)) 0 0 0 (replicate (length (pwins t)) junk) = (cw, pp, pw)"
    and ne: "pwins t \<noteq> []"
  shows "cw[pp := (cw ! pp)\<lparr>duration := tf_duration t - w_offset (pwins t ! pw)\<rparr>] = tp_snapshot t"
proof -
  let ?gw = "pwins t"
  let ?N = "length ?gw"
  from get_loop_inv [OF get_inv_init l]
  have len: "length cw = ?N" and pp: "pp = ?N - 1" and pw: "pw = ?N - 1"
    and f: "\<And>i. i < ?N \<Longrightarrow> offset (cw ! i) = w_offset (?gw ! i) \<and> ptid (cw ! i) = w_part (?gw ! i)"
    and d: "\<And>i. Suc i < ?N \<Longrightarrow> duration (cw ! i) = w_offset (?gw ! Suc i) - w_offset (?gw ! i)"
    by (simp_all add: get_inv_def)
  have pos: "0 < ?N" using ne by simp
  show ?thesis
  proof (rule nth_equalityI)
    show "length (cw[pp := (cw ! pp)\<lparr>duration := tf_duration t - w_offset (?gw ! pw)\<rparr>]) = length (tp_snapshot t)"
      by (simp add: len tp_snapshot_def)
  next
    fix i assume "i < length (cw[pp := (cw ! pp)\<lparr>duration := tf_duration t - w_offset (?gw ! pw)\<rparr>])"
    then have i: "i < ?N" by (simp add: len)
    show "cw[pp := (cw ! pp)\<lparr>duration := tf_duration t - w_offset (?gw ! pw)\<rparr>] ! i = tp_snapshot t ! i"
    proof (cases "Suc i < ?N")
      case True
      then have "i \<noteq> pp" using pp by simp
      then show ?thesis using True i f [OF i] d [OF True]
        by (simp add: tp_snapshot_def)
    next
      case False
      then have "i = pp" using pp i by simp
      then show ?thesis using False i f [OF i] pp pw len
        by (simp add: tp_snapshot_def)
    qed
  qed
qed

lemma get_tp_config_snapshot:
  assumes g: "tp_gps st cpu = Some g" and t: "tp_heap st g = Some t"
    and n: "pwin_nr t = length (pwins t)" and ne: "pwins t \<noteq> []" and r: "gps_refcount t \<noteq> 0"
  shows "get_tp_config st cpu True junk put_config =
           ((put_config (tp_snapshot t), Some (tp_snapshot t)), st)"
proof -
  let ?t1 = "t\<lparr>gps_refcount := gps_refcount t + 1\<rparr>"
  let ?st1 = "st\<lparr>tp_heap := (tp_heap st)(g \<mapsto> ?t1)\<rparr>"
  have g1: "xnsched_tp_get_schedule st cpu = (Some g, ?st1)"
    using g t by (simp add: xnsched_tp_get_schedule_def)
  obtain cw pp pw where l: "get_loop (pwins t) (length (pwins t)) 0 0 0 (replicate (length (pwins t)) junk) = (cw, pp, pw)"
    by (cases "get_loop (pwins t) (length (pwins t)) 0 0 0 (replicate (length (pwins t)) junk)") auto
  have c: "cw[pp := (cw ! pp)\<lparr>duration := tf_duration t - w_offset (pwins t ! pw)\<rparr>] = tp_snapshot t"
    using get_config_snapshot [OF l ne] .
  have "(tp_heap st)(g \<mapsto> t) = tp_heap st" using t by (rule map_upd_triv)
  then have p: "xnsched_tp_put_schedule ?st1 g = st"
    using r by (simp add: xnsched_tp_put_schedule_def)
  show ?thesis
    using g1 l c p n by (simp add: get_tp_config_def Let_def)
qed

lemma snapshot_new_table:
  assumes c: "\<forall>i<length ws. offset (ws ! i) = running_sum ws i \<and> duration (ws ! i) \<noteq> 0"
  shows "tp_snapshot (new_table ws) = ws"
proof (rule nth_equalityI)
  show "length (tp_snapshot (new_table ws)) = length ws"
    by (simp add: tp_snapshot_def new_table_def)
next
  fix i assume "i < length (tp_snapshot (new_table ws))"
  then have i: "i < length ws" by (simp add: tp_snapshot_def new_table_def)
  have o: "offset (ws ! i) = running_sum ws i" using c i by simp
  have "(if Suc i < length ws then offset (ws ! Suc i) else sum_list (map duration ws)) =
          running_sum ws (Suc i)"
    using c i by (auto simp: running_sum_all)
  then have "(if Suc i < length ws then offset (ws ! Suc i) else sum_list (map duration ws)) - offset (ws ! i)
               = duration (ws ! i)"
    using o i by (simp add: running_sum_Suc)
  then show "tp_snapshot (new_table ws) ! i = ws ! i"
    using i by (auto simp: tp_snapshot_def new_table_def to_pwin_def intro!: sched_tp_window.equality)
qed

lemma set_ws_ok: "set_tp_config k0 tp1 0 ws_ok 8 (Some 2) = (Inr 0, tp2)"
  by (simp add: set_tp_config_def k0_def tp1_def tp2_def ws_ok_def tp_install_eq
        xnsched_tp_put_schedule_def old_table_def new_table_def to_pwin_def fun_upd_twist)

lemma fresh_tp1: "fresh_mem tp1 2"
  by (simp add: fresh_mem_def tp1_def)

lemma quota_sum_Cons:
  "xnsched_quota_sum_all (g # gs) cpu =
     (if g_cpu (quota g) = cpu then quota_percent (quota g) else 0) + xnsched_quota_sum_all gs cpu"
  by (simp add: xnsched_quota_sum_all_def)

lemma quota_reported:
  "set_quota_config k gs cpu caller qop len ok refusal = (Inr info, gs') \<Longrightarrow>
   i_quota_sum info = xnsched_quota_sum_all gs' cpu"
  by (auto simp: set_quota_config_def quota_remove_def quota_info_def Let_def quota_sum_Cons
        xnsched_quota_create_group_def xnsched_quota_destroy_group_def
        xnsched_quota_set_limit_def
        split: if_splits quota_op.splits option.splits sum.splits)

lemma quota_add_accepts:
  assumes "sizeof_quota k \<le> len"
  shows "\<exists>info gs'. set_quota_config k gs cpu caller (sched_quota_add shared) len True None = (Inr info, gs') \<and>
           i_quota_sum info = xnsched_quota_sum_all gs cpu + QUOTA_INIT_PERCENT k \<and>
           xnsched_quota_sum_all gs' cpu = xnsched_quota_sum_all gs cpu + QUOTA_INIT_PERCENT k \<and>
           length gs' = length gs + 1"
  using assms
  by (simp add: set_quota_config_def quota_info_def Let_def quota_sum_Cons
        xnsched_quota_create_group_def)

lemma quota_add_failures:
  assumes "set_quota_config k gs cpu caller (sched_quota_add shared) len ok refusal = (Inl e, gs')"
  shows "gs' = gs \<and>
         (len < sizeof_quota k \<and> e = EINVAL \<or> \<not> ok \<and> e = ENOMEM \<or> refusal = Some e)"
  using assms
  by (auto simp: set_quota_config_def xnsched_quota_create_group_def Let_def
        split: if_splits option.splits)

lemma quota_demo_sums:
  assumes "sizeof_quota k \<le> len"
  shows "map (map_sum id i_quota_sum) (quota_demo k cpu caller len) =
           [Inr (QUOTA_INIT_PERCENT k), Inr 60, Inr (60 + QUOTA_INIT_PERCENT k), Inr 130]"
  using assms
  by (simp add: quota_demo_def set_quota_config_def quota_info_def Let_def
        xnsched_quota_sum_all_def xnsched_quota_create_group_def fresh_tgid_def
        xnsched_quota_find_group_def xnsched_quota_set_limit_def cobalt_kqueues_def)

lemma quota_adds_equal_shares:
  assumes "sizeof_quota k \<le> len"
  shows "map (map_sum id (\<lambda>i. (i_quota i, i_quota_sum i))) (quota_adds k cpu caller len) =
           [Inr (QUOTA_INIT_PERCENT k, QUOTA_INIT_PERCENT k),
            Inr (QUOTA_INIT_PERCENT k, QUOTA_INIT_PERCENT k + QUOTA_INIT_PERCENT k)]"
  using assms
  by (simp add: quota_adds_def set_quota_config_def quota_info_def Let_def
        xnsched_quota_sum_all_def xnsched_quota_create_group_def fresh_tgid_def)

subsection \<open>The claims about the scheduler\<close>

text \<open>
  C2 as stated fails three ways. \<open>SCHED_TP\<close> with priority 1000, above the maximum
  256 of its window, is given the TP class. \<open>SCHED_FIFO\<close> with priority -5, below
  the minimum 1 of its window, is given the weak class at priority 5. And where
  \<open>SCHED_FIFO\<close> with priority 1000 is rejected, \<open>*param\<close> has been overwritten.
\<close>

theorem resolve_counterexample:
  "sched_maxprio k0 SCHED_TP = Inr 256 \<and>
   cobalt_sched_policy_param k0 (param_rt 0) SCHED_TP (pex 1000) (Some 5) =
     (Some xnsched_class_tp, param_tp 1000 1, Some 0) \<and>
   sched_minprio k0 SCHED_FIFO = Inr 1 \<and>
   cobalt_sched_policy_param k0 (param_rt 0) SCHED_FIFO (pex (- 5)) (Some 5) =
     (Some xnsched_class_weak, param_weak 5, Some 0) \<and>
   sched_maxprio k0 SCHED_FIFO = Inr 256 \<and>
   cobalt_sched_policy_param k0 (param_rt 0) SCHED_FIFO (pex 1000) (Some 5) =
     (None, param_rt 1000, Some 5)"
  by (simp add: k0_def pex_def cobalt_sched_policy_param_def sched_maxprio_def sched_minprio_def
        check_range_def weak_case_def neg_int_def XN_INFINITE_def)

text \<open>
  C2, amended. Whenever the resolver returns no class, the time slice of the caller
  is left as it was and the only write is \<open>param->rt.prio\<close>. For \<open>SCHED_NORMAL\<close>,
  \<open>SCHED_FIFO\<close>, \<open>SCHED_RR\<close> and \<open>SCHED_COBALT\<close>, a priority that is not
  negative and lies outside the window \<open>sched_minprio\<close> to \<open>sched_maxprio\<close> of the
  policy returns no class. \<open>SCHED_WEAK\<close>, and any policy with a negative priority,
  is resolved at the absolute value of the priority and returns no class when that
  lies outside the window of the weak class, or is not zero when the weak class is
  not compiled in.
\<close>

theorem resolve_rejects:
  assumes "cobalt_sched_policy_param k param u_policy param_ex tslice_r = (cls, param', tslice_r')"
  shows "(cls = None \<longrightarrow> tslice_r' = tslice_r \<and> param' = param_rt (abs_prio (sched_priority param_ex))) \<and>
         (u_policy \<in> {SCHED_NORMAL, SCHED_FIFO, SCHED_RR, SCHED_COBALT} \<and> 0 \<le> sched_priority param_ex \<and>
            sched_minprio k u_policy = Inr lo \<and> sched_maxprio k u_policy = Inr hi \<and>
            (sched_priority param_ex < lo \<or> hi < sched_priority param_ex) \<longrightarrow> cls = None) \<and>
         ((u_policy = SCHED_WEAK \<or> sched_priority param_ex < 0) \<and>
            (if OPT_SCHED_WEAK k
             then abs_prio (sched_priority param_ex) < XNSCHED_WEAK_MIN_PRIO k \<or>
                  XNSCHED_WEAK_MAX_PRIO k < abs_prio (sched_priority param_ex)
             else abs_prio (sched_priority param_ex) \<noteq> 0) \<longrightarrow> cls = None)"
  using assms
  by (auto simp: cobalt_sched_policy_param_def sched_maxprio_def sched_minprio_def
        check_range_def weak_case_def abs_prio_def Let_def
        split: policy.splits if_splits)

theorem resolve_rejects_witness:
  "sched_minprio k0 SCHED_FIFO = Inr 1 \<and> sched_maxprio k0 SCHED_FIFO = Inr 256 \<and>
   fst (cobalt_sched_policy_param k0 (param_rt 0) SCHED_FIFO (pex 1000) (Some 5)) = None \<and>
   snd (snd (cobalt_sched_policy_param k0 (param_rt 0) SCHED_FIFO (pex 1000) (Some 5))) = Some 5 \<and>
   fst (cobalt_sched_policy_param k0 (param_rt 0) SCHED_RR (pex (- 100)) (Some 5)) = None"
proof -
  let ?x = "cobalt_sched_policy_param k0 (param_rt 0) SCHED_FIFO (pex 1000) (Some 5)"
  let ?y = "cobalt_sched_policy_param k0 (param_rt 0) SCHED_RR (pex (- 100)) (Some 5)"
  have ex: "?x = (fst ?x, fst (snd ?x), snd (snd ?x))" and ey: "?y = (fst ?y, fst (snd ?y), snd (snd ?y))"
    by simp_all
  have w: "sched_minprio k0 SCHED_FIFO = Inr 1" "sched_maxprio k0 SCHED_FIFO = Inr 256"
    by (simp_all add: sched_minprio_def sched_maxprio_def k0_def)
  have px: "sched_priority (pex 1000) = 1000" and py: "sched_priority (pex (- 100)) = - 100"
    by (simp_all add: pex_def)
  have ky: "OPT_SCHED_WEAK k0" "XNSCHED_WEAK_MAX_PRIO k0 = 99" "abs_prio (- 100) = 100"
    by (simp_all add: k0_def abs_prio_def neg_int_def)
  from resolve_rejects [OF ex, of 1 256] w px have x1: "fst ?x = None" by simp
  with resolve_rejects [OF ex, of 1 256] have x2: "snd (snd ?x) = Some 5" by simp
  from resolve_rejects [OF ey, of 0 0] py ky have y1: "fst ?y = None" by simp
  from w x1 x2 y1 show ?thesis by simp
qed

text \<open>
  C3. A caller hands in one window at offset 0 whose duration is minus five
  nanoseconds. \<open>ts2ns\<close> turns the duration into the unsigned \<open>2^64 - 5\<close>, which
  the test \<open>duration <= 0\<close> lets through: the call returns 0, the table with that
  window and a cycle of \<open>2^64 - 5\<close> nanoseconds is the schedule of the CPU, and the
  schedule that was in force is released.
\<close>

theorem set_tp_config_accepts_negative_duration:
  "tv_nsec (u_duration (uw_neg ! 0)) = - 5 \<and> tv_sec (u_duration (uw_neg ! 0)) = 0 \<and>
   duration (tp_window_ns (uw_neg ! 0)) = 18446744073709551611 \<and>
   \<not> duration (tp_window_ns (uw_neg ! 0)) \<le> 0 \<and>
   tp_gps tp1 0 = Some 1 \<and> tp_heap tp1 1 = Some old_table \<and>
   set_tp_config k0 tp1 0 (map tp_window_ns uw_neg) 8 (Some 2) = (Inr 0, tp_neg) \<and>
   tp_gps tp_neg 0 = Some 2 \<and> tp_heap tp_neg 1 = None \<and>
   map_option tf_duration (tp_heap tp_neg 2) = Some 18446744073709551611"
proof -
  have d: "tp_window_ns (uw_neg ! 0) = \<lparr>offset = 0, duration = 18446744073709551611, ptid = 0\<rparr>"
    by (simp add: uw_neg_def tp_window_ns_def ts2ns_def)
  have s: "set_tp_config k0 tp1 0 (map tp_window_ns uw_neg) 8 (Some 2) = (Inr 0, tp_neg)"
    using d
    by (simp add: set_tp_config_def k0_def tp1_def tp_neg_def uw_neg_def tp_install_eq
          xnsched_tp_put_schedule_def old_table_def fun_upd_twist)
  show ?thesis using d s
    by (simp add: uw_neg_def tp1_def tp_neg_def)
qed

text \<open>
  C5. After \<open>set_tp_config\<close> has accepted a non-empty list of windows,
  \<open>get_tp_config\<close> on the same CPU hands \<open>put_config\<close> the snapshot of the table
  installed, and returns what \<open>put_config\<close> returns: as many windows as were set,
  each with the offset and the partition it was set with and with the duration
  rebuilt from the offsets, the next offset (for the last window the length of the
  cycle) minus its own, which is the duration it was set with. The state after the
  call is the state before it.
\<close>

theorem set_get_roundtrip:
  assumes s: "set_tp_config k st cpu ws len (Some g) = (Inr 0, st')" and ne: "ws \<noteq> []"
    and fresh: "fresh_mem st g"
  shows "\<exists>t. tp_gps st' cpu = Some g \<and> tp_heap st' g = Some t \<and>
             get_tp_config st' cpu True junk put_config =
               ((put_config (tp_snapshot t), Some (tp_snapshot t)), st') \<and>
             length (tp_snapshot t) = length ws \<and>
             (\<forall>i<length ws.
                offset (tp_snapshot t ! i) = offset (ws ! i) \<and>
                ptid (tp_snapshot t ! i) = ptid (ws ! i) \<and>
                duration (tp_snapshot t ! i) =
                  (if Suc i < length ws then offset (ws ! Suc i) else tf_duration t) - offset (ws ! i) \<and>
                duration (tp_snapshot t ! i) = duration (ws ! i))"
proof -
  from set_tp_config_success [OF s ne fresh]
  have g: "tp_gps st' cpu = Some g" and t: "tp_heap st' g = Some (new_table ws)"
    and c: "\<forall>i<length ws. offset (ws ! i) = running_sum ws i \<and> duration (ws ! i) \<noteq> 0"
    by simp_all
  have e: "tp_snapshot (new_table ws) = ws" using c by (rule snapshot_new_table)
  have "get_tp_config st' cpu True junk put_config =
          ((put_config (tp_snapshot (new_table ws)), Some (tp_snapshot (new_table ws))), st')"
    using ne by (intro get_tp_config_snapshot [OF g t]) (simp_all add: new_table_def)
  moreover have "\<forall>i<length ws. duration (ws ! i) =
      (if Suc i < length ws then offset (ws ! Suc i) else tf_duration (new_table ws)) - offset (ws ! i)"
  proof (intro allI impI)
    fix i assume i: "i < length ws"
    have tf: "tf_duration (new_table ws) = sum_list (map duration ws)"
      by (simp add: new_table_def)
    have o: "offset (ws ! i) = running_sum ws i" using c i by simp
    have "(if Suc i < length ws then offset (ws ! Suc i) else sum_list (map duration ws)) =
            running_sum ws (Suc i)"
      using c i by (auto simp: running_sum_all)
    then show "duration (ws ! i) =
      (if Suc i < length ws then offset (ws ! Suc i) else tf_duration (new_table ws)) - offset (ws ! i)"
      using o i by (auto simp: running_sum_Suc tf split: if_splits)
  qed
  ultimately show ?thesis using g t e by simp
qed

theorem set_get_roundtrip_witness:
  "set_tp_config k0 tp1 0 ws_ok 8 (Some 2) = (Inr 0, tp2) \<and> ws_ok \<noteq> [] \<and> fresh_mem tp1 2 \<and>
   (\<exists>t. tp_gps tp2 0 = Some 2 \<and> tp_heap tp2 2 = Some t \<and>
        get_tp_config tp2 0 True junk0 (\<lambda>c. Inr (length c)) = ((Inr 3, Some (tp_snapshot t)), tp2) \<and>
        tp_snapshot t = ws_ok)"
proof -
  have ne: "ws_ok \<noteq> []" by (simp add: ws_ok_def)
  from set_get_roundtrip [OF set_ws_ok ne fresh_tp1, of junk0 "\<lambda>c. Inr (length c)"]
  obtain t where r: "tp_gps tp2 0 = Some 2 \<and> tp_heap tp2 2 = Some t \<and>
             get_tp_config tp2 0 True junk0 (\<lambda>c. Inr (length c)) =
               ((Inr (length (tp_snapshot t)), Some (tp_snapshot t)), tp2) \<and>
             length (tp_snapshot t) = length ws_ok \<and>
             (\<forall>i<length ws_ok.
                offset (tp_snapshot t ! i) = offset (ws_ok ! i) \<and>
                ptid (tp_snapshot t ! i) = ptid (ws_ok ! i) \<and>
                duration (tp_snapshot t ! i) =
                  (if Suc i < length ws_ok then offset (ws_ok ! Suc i) else tf_duration t) - offset (ws_ok ! i) \<and>
                duration (tp_snapshot t ! i) = duration (ws_ok ! i))"
    by blast
  then have t: "tp_gps tp2 0 = Some 2" "tp_heap tp2 2 = Some t"
    "get_tp_config tp2 0 True junk0 (\<lambda>c. Inr (length c)) =
       ((Inr (length (tp_snapshot t)), Some (tp_snapshot t)), tp2)"
    "length (tp_snapshot t) = length ws_ok"
    "\<forall>i<length ws_ok.
                offset (tp_snapshot t ! i) = offset (ws_ok ! i) \<and>
                ptid (tp_snapshot t ! i) = ptid (ws_ok ! i) \<and>
                duration (tp_snapshot t ! i) = duration (ws_ok ! i)"
    by blast+
  have "tp_snapshot t = ws_ok"
    using t(4,5) by (auto intro!: nth_equalityI sched_tp_window.equality)
  moreover have "length ws_ok = 3" by (simp add: ws_ok_def)
  ultimately show ?thesis using t set_ws_ok ne fresh_tp1 by auto
qed

text \<open>
  C6 as stated fails in its example: an add carries no share. Two groups added
  to an empty CPU both stand at the share every new group starts with, here 100,
  never at 60 and 70, and the second add reports 200; and where the first group
  has been set to 60 before the second is added, the second add reports 160. It is
  the \<open>set_limit\<close> that follows which reports 130. (\<open>quota_adds_equal_shares\<close>
  shows the two equal shares whatever a new group starts with.)
\<close>

theorem quota_add_share_counterexample:
  "map (map_sum id (\<lambda>i. (i_quota i, i_quota_sum i))) (quota_adds k0 0 7 16) =
     [Inr (100, 100), Inr (100, 200)] \<and>
   map (map_sum id i_quota_sum) (quota_demo k0 0 7 16) ! 2 = Inr 160 \<and>
   map (map_sum id i_quota_sum) (quota_demo k0 0 7 16) ! 3 = Inr 130"
proof -
  have l: "sizeof_quota k0 \<le> 16" by (simp add: k0_def)
  from quota_adds_equal_shares [OF l, of 0 7] quota_demo_sums [OF l, of 0 7]
  show ?thesis by (simp add: k0_def)
qed

text \<open>
  C6, amended. Adding a group is never refused because of the aggregate: with a
  request of sufficient length, memory for the group and no refusal by the quota
  class, it succeeds whatever the aggregate of the CPU already is, and reports the
  aggregate raised by the share the new group starts with; and when an add fails,
  it is for the length, for memory or with the status of the quota class, and it
  changes nothing. Every operation that succeeds, add, remove or set, answers with
  the aggregate of the CPU as the operation leaves it. A share is given by
  \<open>set_limit\<close>: two groups created on one CPU and set to 60 and to 70 percent are
  all accepted, and the last answer reports 130.
\<close>

theorem quota_overcommit:
  "(\<forall>k gs cpu caller shared len.
      sizeof_quota k \<le> len \<longrightarrow>
      (\<exists>info gs'. set_quota_config k gs cpu caller (sched_quota_add shared) len True None = (Inr info, gs') \<and>
           i_quota_sum info = xnsched_quota_sum_all gs cpu + QUOTA_INIT_PERCENT k \<and>
           xnsched_quota_sum_all gs' cpu = xnsched_quota_sum_all gs cpu + QUOTA_INIT_PERCENT k \<and>
           length gs' = length gs + 1)) \<and>
   (\<forall>k gs cpu caller shared len ok refusal e gs'.
      set_quota_config k gs cpu caller (sched_quota_add shared) len ok refusal = (Inl e, gs') \<longrightarrow>
      gs' = gs \<and>
      (len < sizeof_quota k \<and> e = EINVAL \<or> \<not> ok \<and> e = ENOMEM \<or> refusal = Some e)) \<and>
   (\<forall>k gs cpu caller qop len ok refusal info gs'.
      set_quota_config k gs cpu caller qop len ok refusal = (Inr info, gs') \<longrightarrow>
      i_quota_sum info = xnsched_quota_sum_all gs' cpu) \<and>
   (\<forall>k cpu caller len.
      sizeof_quota k \<le> len \<longrightarrow>
      map (map_sum id i_quota_sum) (quota_demo k cpu caller len) =
        [Inr (QUOTA_INIT_PERCENT k), Inr 60, Inr (60 + QUOTA_INIT_PERCENT k), Inr 130])"
proof (intro conjI allI impI)
  fix k :: kconfig and gs :: "cobalt_sched_group list" and cpu caller :: nat and shared :: bool
    and len :: nat
  assume "sizeof_quota k \<le> len"
  then show "\<exists>info gs'. set_quota_config k gs cpu caller (sched_quota_add shared) len True None = (Inr info, gs') \<and>
           i_quota_sum info = xnsched_quota_sum_all gs cpu + QUOTA_INIT_PERCENT k \<and>
           xnsched_quota_sum_all gs' cpu = xnsched_quota_sum_all gs cpu + QUOTA_INIT_PERCENT k \<and>
           length gs' = length gs + 1"
    by (rule quota_add_accepts)
next
  fix k gs cpu caller shared len ok refusal e gs'
  assume a: "set_quota_config k gs cpu caller (sched_quota_add shared) len ok refusal = (Inl e, gs')"
  from quota_add_failures [OF a] show "gs' = gs"
    and "len < sizeof_quota k \<and> e = EINVAL \<or> \<not> ok \<and> e = ENOMEM \<or> refusal = Some e"
    by simp_all
next
  fix k gs cpu caller qop len ok refusal info gs'
  assume "set_quota_config k gs cpu caller qop len ok refusal = (Inr info, gs')"
  then show "i_quota_sum info = xnsched_quota_sum_all gs' cpu" by (rule quota_reported)
next
  fix k :: kconfig and cpu caller len :: nat
  assume "sizeof_quota k \<le> len"
  then show "map (map_sum id i_quota_sum) (quota_demo k cpu caller len) =
        [Inr (QUOTA_INIT_PERCENT k), Inr 60, Inr (60 + QUOTA_INIT_PERCENT k), Inr 130]"
    by (rule quota_demo_sums)
qed

theorem quota_overcommit_witness:
  "map (map_sum id i_quota_sum) (quota_demo k0 0 7 16) = [Inr 100, Inr 60, Inr 160, Inr 130] \<and>
   (\<exists>info gs'. set_quota_config k0 [] 0 7 (sched_quota_add True) 16 True None = (Inr info, gs') \<and>
        i_quota_sum info = 100) \<and>
   set_quota_config k0 [] 0 7 (sched_quota_add True) 16 True (Some EBUSY) = (Inl EBUSY, [])"
proof -
  note p1 = quota_overcommit [THEN conjunct1, rule_format]
  note p2 = quota_overcommit [THEN conjunct2, THEN conjunct1, rule_format]
  note p4 = quota_overcommit [THEN conjunct2, THEN conjunct2, THEN conjunct2, rule_format]
  have l: "sizeof_quota k0 \<le> 16" by (simp add: k0_def)
  have f: "set_quota_config k0 [] 0 7 (sched_quota_add True) 16 True (Some EBUSY) =
             (Inl EBUSY, snd (set_quota_config k0 [] 0 7 (sched_quota_add True) 16 True (Some EBUSY)))"
    by (simp add: set_quota_config_def k0_def xnsched_quota_create_group_def)
  from p2 [OF f] f
  have c: "set_quota_config k0 [] 0 7 (sched_quota_add True) 16 True (Some EBUSY) = (Inl EBUSY, [])"
    by simp
  from p4 [OF l, of 0 7] p1 [OF l, of "[]" 0 7 True] c show ?thesis
    by (simp add: k0_def xnsched_quota_sum_all_def) blast
qed

end
